theory Spec2Isabelle
  imports Complex_Main "HOL-Library.Signed_Division"
begin

section \<open>The solar system demo (Cpp\_minidemo/Solar\_System/main.cpp)\<close>

text \<open>
  The program is one C++ file on top of SDL2. The embedding keeps its structure:
  the struct \<^verbatim>\<open>Planet\<close> is a record, \<^verbatim>\<open>Planet::updatePosition\<close> a function
  from the old body to the new one, the main loop a recursion over the batches of
  events that \<^verbatim>\<open>SDL_PollEvent\<close> hands out, and every call into SDL an entry of
  a trace.

  Numbers. A C++ \<^verbatim>\<open>int\<close> is a mathematical integer that has to stay inside the
  32-bit range: a signed overflow and a conversion from \<^verbatim>\<open>double\<close> whose
  truncated value does not fit are undefined behaviour in C++, written here as the
  result \<open>None\<close>. A \<^verbatim>\<open>double\<close> is an IEEE 754 binary64 value: every sum
  and product is the exact result rounded to the nearest representable value,
  and is held in binary64 (no wider intermediate format).
\<close>

subsection \<open>Binary64 arithmetic\<close>

text \<open>
  A \<^verbatim>\<open>double\<close> is a finite value, one of the two infinities or a NaN. A finite
  value is kept as the real number it denotes; the values that arithmetic
  produces are of the form \<open>m * 2 ^ e\<close> with \<open>\<bar>m\<bar> \<le> 2 ^ 53\<close> and
  \<open>e \<ge> -1074\<close>. The two zeros are one value (they compare equal, have the same
  cosine and sine and convert to the same \<^verbatim>\<open>int\<close>), and so are all NaNs.
\<close>

datatype double = Finite real | PlusInfinity | MinusInfinity | NaN

text \<open>Rounding to the nearest integer, a tie going to the even one.\<close>

definition round_ties_even :: "real \<Rightarrow> int" where
  "round_ties_even y =
     (let f = \<lfloor>y\<rfloor>
      in if y - real_of_int f < 1 / 2 then f
         else if 1 / 2 < y - real_of_int f then f + 1
         else if even f then f else f + 1)"

text \<open>
  The exponent of the unit in the last place of a nonzero real: 52 below the
  exponent of its leading bit, and \<open>-1074\<close> in the subnormal range.
\<close>

definition ulp_exponent :: "real \<Rightarrow> int" where
  "ulp_exponent v = max (\<lfloor>log 2 \<bar>v\<bar>\<rfloor> - 52) (- 1074)"

text \<open>
  The binary64 value of a real number in the default rounding mode (to nearest,
  ties to even): 53 significant bits, gradual underflow, and an infinity when the
  rounded value reaches \<open>2 ^ 1024\<close>.
\<close>

definition round64 :: "real \<Rightarrow> double" where
  "round64 v =
     (if v = 0 then Finite 0
      else (let e = ulp_exponent v; m = round_ties_even (v / 2 powi e)
            in if 2 ^ 1024 \<le> \<bar>real_of_int m\<bar> * 2 powi e
               then (if 0 < v then PlusInfinity else MinusInfinity)
               else Finite (real_of_int m * 2 powi e)))"

text \<open>The operator \<^verbatim>\<open>+\<close> on two doubles.\<close>

fun double_add :: "double \<Rightarrow> double \<Rightarrow> double" where
  "double_add (Finite a) (Finite b) = round64 (a + b)"
| "double_add NaN b = NaN"
| "double_add a NaN = NaN"
| "double_add PlusInfinity MinusInfinity = NaN"
| "double_add MinusInfinity PlusInfinity = NaN"
| "double_add PlusInfinity b = PlusInfinity"
| "double_add a PlusInfinity = PlusInfinity"
| "double_add MinusInfinity b = MinusInfinity"
| "double_add a MinusInfinity = MinusInfinity"

text \<open>The infinity with the sign of a real factor; zero times infinity is a NaN.\<close>

definition infinity_with_sign :: "real \<Rightarrow> double" where
  "infinity_with_sign a =
     (if a = 0 then NaN else if 0 < a then PlusInfinity else MinusInfinity)"

text \<open>The operator \<^verbatim>\<open>*\<close> on two doubles.\<close>

fun double_mul :: "double \<Rightarrow> double \<Rightarrow> double" where
  "double_mul (Finite a) (Finite b) = round64 (a * b)"
| "double_mul NaN b = NaN"
| "double_mul a NaN = NaN"
| "double_mul (Finite a) PlusInfinity = infinity_with_sign a"
| "double_mul (Finite a) MinusInfinity = infinity_with_sign (- a)"
| "double_mul PlusInfinity (Finite b) = infinity_with_sign b"
| "double_mul MinusInfinity (Finite b) = infinity_with_sign (- b)"
| "double_mul PlusInfinity PlusInfinity = PlusInfinity"
| "double_mul MinusInfinity MinusInfinity = PlusInfinity"
| "double_mul PlusInfinity MinusInfinity = MinusInfinity"
| "double_mul MinusInfinity PlusInfinity = MinusInfinity"

text \<open>
  \<^verbatim>\<open>cos\<close> and \<^verbatim>\<open>sin\<close> of \<^verbatim>\<open><cmath>\<close>. The C library is not part of the
  sources; its two functions are taken to return the binary64 value nearest to the
  exact cosine and sine of a finite argument, and a NaN for an infinity or a NaN.
\<close>

fun double_cos :: "double \<Rightarrow> double" where
  "double_cos (Finite a) = round64 (cos a)"
| "double_cos a = NaN"

fun double_sin :: "double \<Rightarrow> double" where
  "double_sin (Finite a) = round64 (sin a)"
| "double_sin a = NaN"

text \<open>A decimal literal of the source: the double nearest to it.\<close>

definition literal :: "real \<Rightarrow> double" where
  "literal v = round64 v"

subsection \<open>Machine integers and the conversion from double\<close>

definition INT_MIN :: int where
  "INT_MIN = - (2 ^ 31)"

definition INT_MAX :: int where
  "INT_MAX = 2 ^ 31 - 1"

definition in_int_range :: "int \<Rightarrow> bool" where
  "in_int_range i \<longleftrightarrow> INT_MIN \<le> i \<and> i \<le> INT_MAX"

text \<open>An \<^verbatim>\<open>int\<close> result: the value when it is representable, undefined otherwise.\<close>

definition int_result :: "int \<Rightarrow> int option" where
  "int_result i = (if in_int_range i then Some i else None)"

definition int_add :: "int \<Rightarrow> int \<Rightarrow> int option" where
  "int_add a b = int_result (a + b)"

definition int_sub :: "int \<Rightarrow> int \<Rightarrow> int option" where
  "int_sub a b = int_result (a - b)"

text \<open>Rounding toward zero: the fractional part of the double is discarded.\<close>

definition truncate_toward_zero :: "real \<Rightarrow> int" where
  "truncate_toward_zero v = (if 0 \<le> v then \<lfloor>v\<rfloor> else \<lceil>v\<rceil>)"

text \<open>
  \<^verbatim>\<open>static_cast<int>(v)\<close> for a double \<open>v\<close>. The conversion of an infinity or
  a NaN is undefined as well.
\<close>

fun static_cast_int :: "double \<Rightarrow> int option" where
  "static_cast_int (Finite v) = int_result (truncate_toward_zero v)"
| "static_cast_int v = None"

subsection \<open>Textures and rectangles\<close>

text \<open>
  The ten images of \<^verbatim>\<open>./images/\<close>. A \<^verbatim>\<open>shared_ptr<SDL_Texture>\<close> is
  identified with the image its texture was created from.
\<close>

datatype asset =
  Stars | Sun | Mercury | Venus | Earth | Mars | Jupiter | Saturn | Uranus | Neptune

text \<open>\<^verbatim>\<open>SDL_Rect\<close>: four \<^verbatim>\<open>int\<close> fields \<^verbatim>\<open>x, y, w, h\<close>.\<close>

record SDL_Rect =
  rect_x :: int
  rect_y :: int
  rect_w :: int
  rect_h :: int

subsection \<open>struct Planet\<close>

record Planet =
  rect :: SDL_Rect
  orbitRadius :: double
  orbitSpeed :: double
  angle :: double
  texture :: asset
  halfW :: int
  halfH :: int

text \<open>
  The constructor \<^verbatim>\<open>Planet(w, h, orbitRadius, orbitSpeed, angle, texture)\<close>:
  \<^verbatim>\<open>rect{0, 0, w, h}\<close>, \<^verbatim>\<open>halfW(w / 2)\<close>, \<^verbatim>\<open>halfH(h / 2)\<close>. The division of
  two \<^verbatim>\<open>int\<close>s truncates toward zero (\<open>sdiv\<close>).
\<close>

definition Planet_new :: "int \<Rightarrow> int \<Rightarrow> double \<Rightarrow> double \<Rightarrow> double \<Rightarrow> asset \<Rightarrow> Planet" where
  "Planet_new w h r s a t =
     \<lparr> rect = \<lparr> rect_x = 0, rect_y = 0, rect_w = w, rect_h = h \<rparr>,
       orbitRadius = r, orbitSpeed = s, angle = a, texture = t,
       halfW = w sdiv 2, halfH = h sdiv 2 \<rparr>"

text \<open>
  \<^verbatim>\<open>updatePosition(sunX, sunY)\<close>: the three statements in the order of the source.
  Each \<^verbatim>\<open>int\<close> operation is evaluated left to right and has to stay in range.
\<close>

definition updatePosition :: "int \<Rightarrow> int \<Rightarrow> Planet \<Rightarrow> Planet option" where
  "updatePosition sunX sunY p =
     (case static_cast_int (double_mul (orbitRadius p) (double_cos (angle p))) of
        None \<Rightarrow> None
      | Some cx \<Rightarrow>
     (case int_add sunX cx of
        None \<Rightarrow> None
      | Some tx \<Rightarrow>
     (case int_sub tx (halfW p) of
        None \<Rightarrow> None
      | Some nx \<Rightarrow>
     (case static_cast_int (double_mul (orbitRadius p) (double_sin (angle p))) of
        None \<Rightarrow> None
      | Some cy \<Rightarrow>
     (case int_add sunY cy of
        None \<Rightarrow> None
      | Some ty \<Rightarrow>
     (case int_sub ty (halfH p) of
        None \<Rightarrow> None
      | Some ny \<Rightarrow>
          Some (p \<lparr> rect := (rect p) \<lparr> rect_x := nx, rect_y := ny \<rparr>,
                    angle := double_add (angle p) (orbitSpeed p) \<rparr>)))))))"

subsection \<open>The constants of main\<close>

definition SCREEN_WIDTH :: int where
  "SCREEN_WIDTH = 1920"

definition SCREEN_HEIGHT :: int where
  "SCREEN_HEIGHT = 1080"

definition sunRect :: SDL_Rect where
  "sunRect = \<lparr> rect_x = (SCREEN_WIDTH - 100) sdiv 2, rect_y = (SCREEN_HEIGHT - 100) sdiv 2,
               rect_w = 100, rect_h = 100 \<rparr>"

definition backgroundRect :: SDL_Rect where
  "backgroundRect = \<lparr> rect_x = 0, rect_y = 0, rect_w = SCREEN_WIDTH, rect_h = SCREEN_HEIGHT \<rparr>"

definition sunXCoordinate :: int where
  "sunXCoordinate = rect_x sunRect + rect_w sunRect sdiv 2"

definition sunYCoordinate :: int where
  "sunYCoordinate = rect_y sunRect + rect_h sunRect sdiv 2"

definition mercury :: Planet where
  "mercury = Planet_new 30 30 (literal 80.0) (double_mul (literal 0.02) (literal 4.15)) (literal 45.0) Mercury"

definition venus :: Planet where
  "venus = Planet_new 40 40 (literal 125.0) (double_mul (literal 0.02) (literal 1.62)) (literal 90.0) Venus"

definition earth :: Planet where
  "earth = Planet_new 50 50 (literal 175.0) (literal 0.02) (literal 135.0) Earth"

definition mars :: Planet where
  "mars = Planet_new 40 40 (literal 225.0) (double_mul (literal 0.02) (literal 0.53)) (literal 180.0) Mars"

definition jupiter :: Planet where
  "jupiter = Planet_new 80 80 (literal 290.0) (double_mul (literal 0.02) (literal 0.084)) (literal 225.0) Jupiter"

definition saturn :: Planet where
  "saturn = Planet_new 70 70 (literal 380.0) (double_mul (literal 0.02) (literal 0.034)) (literal 270.0) Saturn"

definition uranus :: Planet where
  "uranus = Planet_new 60 60 (literal 470.0) (double_mul (literal 0.02) (literal 0.012)) (literal 315.0) Uranus"

definition neptune :: Planet where
  "neptune = Planet_new 60 60 (literal 550.0) (double_mul (literal 0.02) (literal 0.006)) (literal 0.0) Neptune"

definition planets :: "Planet list" where
  "planets = [mercury, venus, earth, mars, jupiter, saturn, uranus, neptune]"

subsection \<open>Calls into SDL and the streams\<close>

text \<open>
  What the program does to the outside is a trace: one entry for each call into
  SDL and for each line written to \<^verbatim>\<open>std::cout\<close> and \<^verbatim>\<open>std::cerr\<close>.
  \<open>SDL_CreateTextureFromSurface a\<close> stands for the source's
  \<^verbatim>\<open>SDL_CreateTextureFromSurface(renderer, SDL_LoadBMP(path of a))\<close>.
\<close>

datatype sdl_call =
    SDL_Init
  | Cout string
  | Cerr string
  | SDL_SetHint
  | SDL_CreateWindow
  | SDL_CreateRenderer
  | SDL_CreateTextureFromSurface asset
  | SDL_SetRenderDrawColor
  | SDL_RenderClear
  | SDL_RenderCopy asset SDL_Rect
  | SDL_RenderPresent
  | SDL_Delay nat
  | SDL_DestroyWindow
  | SDL_Quit

text \<open>\<^verbatim>\<open>Planet::render\<close>: one \<^verbatim>\<open>SDL_RenderCopy\<close> of the texture to \<^verbatim>\<open>rect\<close>.\<close>

definition render :: "Planet \<Rightarrow> sdl_call" where
  "render p = SDL_RenderCopy (texture p) (rect p)"

text \<open>
  The loop \<^verbatim>\<open>for (Planet& planet : planets)\<close>: each body is updated against the
  sun's centre and then rendered, in array order.
\<close>

fun planets_loop :: "Planet list \<Rightarrow> (sdl_call list \<times> Planet list) option" where
  "planets_loop [] = Some ([], [])"
| "planets_loop (p # ps) =
     (case updatePosition sunXCoordinate sunYCoordinate p of
        None \<Rightarrow> None
      | Some p' \<Rightarrow>
          (case planets_loop ps of
             None \<Rightarrow> None
           | Some (cs, ps') \<Rightarrow> Some (render p' # cs, p' # ps')))"

text \<open>The rendering part of one iteration of the main loop (lines 138 to 149).\<close>

definition frame :: "Planet list \<Rightarrow> (sdl_call list \<times> Planet list) option" where
  "frame ps =
     (case planets_loop ps of
        None \<Rightarrow> None
      | Some (cs, ps') \<Rightarrow>
          Some ([SDL_RenderClear, SDL_RenderCopy Stars backgroundRect, SDL_RenderCopy Sun sunRect]
                @ cs @ [SDL_RenderPresent, SDL_Delay 16], ps'))"

subsection \<open>Events and the main loop\<close>

text \<open>
  Of an \<^verbatim>\<open>SDL_Event\<close> the program reads \<^verbatim>\<open>type\<close> and, for a key-down event,
  \<^verbatim>\<open>key.keysym.sym\<close>. Every other event type and key is kept by its number.
\<close>

datatype keycode = SDLK_ESCAPE | SDLK_other nat

datatype event = SDL_QUIT | SDL_KEYDOWN keycode | SDL_other_event nat

text \<open>The body of the \<^verbatim>\<open>SDL_PollEvent\<close> loop: two \<^verbatim>\<open>if\<close>s, one after the other.\<close>

definition handle_event :: "bool \<Rightarrow> event \<Rightarrow> bool" where
  "handle_event running e =
     (let running1 = (if e = SDL_QUIT then False else running)
      in (case e of
            SDL_KEYDOWN k \<Rightarrow> (if k = SDLK_ESCAPE then False else running1)
          | _ \<Rightarrow> running1))"

fun poll_events :: "bool \<Rightarrow> event list \<Rightarrow> bool" where
  "poll_events running [] = running"
| "poll_events running (e # es) = poll_events (handle_event running e) es"

text \<open>
  The main loop runs on the batches of events that the successive rounds of
  \<^verbatim>\<open>SDL_PollEvent\<close> deliver, one batch for each iteration. It ends with
  \<open>Finished\<close> when \<^verbatim>\<open>running\<close> was set to false, with \<open>Running\<close> when the
  batches are used up and the loop would go on, and with \<open>Undefined\<close> when an
  update had no defined result. \<^verbatim>\<open>running\<close> is true at the start of every
  iteration, and is tested again only after the frame has been drawn.
\<close>

datatype loop_status = Finished | Running | Undefined

fun main_loop :: "Planet list \<Rightarrow> event list list \<Rightarrow> sdl_call list \<times> Planet list \<times> loop_status" where
  "main_loop ps [] = ([], ps, Running)"
| "main_loop ps (es # ess) =
     (let running = poll_events True es
      in (case frame ps of
            None \<Rightarrow> ([], ps, Undefined)
          | Some (cs, ps') \<Rightarrow>
              if running
              then (case main_loop ps' ess of (tr, ps'', st) \<Rightarrow> (cs @ tr, ps'', st))
              else (cs, ps', Finished)))"

subsection \<open>main\<close>

text \<open>
  What \<open>main\<close> gets from outside: whether \<^verbatim>\<open>SDL_Init\<close> succeeds, for each image
  whether its texture pointer is non-null, the text of \<^verbatim>\<open>SDL_GetError()\<close>, and
  the event batches.
\<close>

record environment =
  sdl_init_ok :: bool
  texture_created :: "asset \<Rightarrow> bool"
  sdl_error :: string
  event_batches :: "event list list"

datatype outcome = Exit int | Still_running | Undefined_behaviour

definition endl :: string where
  "endl = [CHR 0x0A]"

definition startup_calls :: "sdl_call list" where
  "startup_calls =
     [SDL_Init, Cout (''SDL video system initialized'' @ endl), SDL_SetHint,
      SDL_CreateWindow, SDL_CreateRenderer,
      SDL_CreateTextureFromSurface Stars, SDL_CreateTextureFromSurface Sun,
      SDL_CreateTextureFromSurface Mercury, SDL_CreateTextureFromSurface Venus,
      SDL_CreateTextureFromSurface Earth, SDL_CreateTextureFromSurface Mars,
      SDL_CreateTextureFromSurface Jupiter, SDL_CreateTextureFromSurface Saturn,
      SDL_CreateTextureFromSurface Uranus, SDL_CreateTextureFromSurface Neptune]"

definition main :: "environment \<Rightarrow> sdl_call list \<times> outcome" where
  "main env =
     (if \<not> sdl_init_ok env
      then ([SDL_Init, Cerr (''SDL could not be initialized: '' @ sdl_error env @ endl)],
            Exit (- 1))
      else if \<not> texture_created env Stars \<or> \<not> texture_created env Sun
            \<or> \<not> texture_created env Mercury \<or> \<not> texture_created env Venus
            \<or> \<not> texture_created env Earth \<or> \<not> texture_created env Mars
            \<or> \<not> texture_created env Jupiter \<or> \<not> texture_created env Saturn
            \<or> \<not> texture_created env Uranus \<or> \<not> texture_created env Neptune
      then (startup_calls
              @ [Cerr (''Failed to create texture: '' @ sdl_error env @ endl)],
            Exit (- 1))
      else (case main_loop planets (event_batches env) of
              (tr, ps, Finished) \<Rightarrow>
                (startup_calls @ [SDL_SetRenderDrawColor] @ tr @ [SDL_DestroyWindow, SDL_Quit],
                 Exit 0)
            | (tr, ps, Running) \<Rightarrow>
                (startup_calls @ [SDL_SetRenderDrawColor] @ tr, Still_running)
            | (tr, ps, Undefined) \<Rightarrow>
                (startup_calls @ [SDL_SetRenderDrawColor] @ tr, Undefined_behaviour)))"

section \<open>Notions used to state the properties\<close>

text \<open>The \<^verbatim>\<open>int\<close> that a finite double is cut to (and 0 for the others).\<close>

fun truncated :: "double \<Rightarrow> int" where
  "truncated (Finite v) = truncate_toward_zero v"
| "truncated v = 0"

fun is_finite :: "double \<Rightarrow> bool" where
  "is_finite (Finite v) = True"
| "is_finite v = False"

text \<open>
  When a call of \<^verbatim>\<open>updatePosition\<close> is defined (the two products are finite,
  the two conversions and the four integer sums stay in range), and the body it
  then leaves behind.
\<close>

definition update_defined :: "int \<Rightarrow> int \<Rightarrow> Planet \<Rightarrow> bool" where
  "update_defined sunX sunY p \<longleftrightarrow>
     is_finite (double_mul (orbitRadius p) (double_cos (angle p))) \<and>
     in_int_range (truncated (double_mul (orbitRadius p) (double_cos (angle p)))) \<and>
     in_int_range (sunX + truncated (double_mul (orbitRadius p) (double_cos (angle p)))) \<and>
     in_int_range (sunX + truncated (double_mul (orbitRadius p) (double_cos (angle p))) - halfW p) \<and>
     is_finite (double_mul (orbitRadius p) (double_sin (angle p))) \<and>
     in_int_range (truncated (double_mul (orbitRadius p) (double_sin (angle p)))) \<and>
     in_int_range (sunY + truncated (double_mul (orbitRadius p) (double_sin (angle p)))) \<and>
     in_int_range (sunY + truncated (double_mul (orbitRadius p) (double_sin (angle p))) - halfH p)"

definition updated :: "int \<Rightarrow> int \<Rightarrow> Planet \<Rightarrow> Planet" where
  "updated sunX sunY p =
     p \<lparr> rect := (rect p)
            \<lparr> rect_x := sunX + truncated (double_mul (orbitRadius p) (double_cos (angle p)))
                        - halfW p,
              rect_y := sunY + truncated (double_mul (orbitRadius p) (double_sin (angle p)))
                        - halfH p \<rparr>,
         angle := double_add (angle p) (orbitSpeed p) \<rparr>"

text \<open>A finite double of at most the given absolute value.\<close>

fun finite_within :: "real \<Rightarrow> double \<Rightarrow> bool" where
  "finite_within b (Finite v) = (\<bar>v\<bar> \<le> b)"
| "finite_within b v = False"

text \<open>
  A bound that keeps every update of a run defined: radius, centre and half sizes
  of at most \<open>2 ^ 29\<close> in absolute value, an angle of at most \<open>2 ^ 100\<close> and a
  speed of at most \<open>2 ^ 46\<close> (an angle that has grown to \<open>2 ^ 100\<close> no longer
  moves by such a speed, so it stays finite).
\<close>

definition small_body :: "int \<Rightarrow> int \<Rightarrow> Planet \<Rightarrow> bool" where
  "small_body sunX sunY p \<longleftrightarrow>
     finite_within (2 ^ 29) (orbitRadius p) \<and> finite_within (2 ^ 100) (angle p) \<and>
     finite_within (2 ^ 46) (orbitSpeed p) \<and>
     \<bar>sunX\<bar> \<le> 2 ^ 29 \<and> \<bar>sunY\<bar> \<le> 2 ^ 29 \<and>
     \<bar>halfW p\<bar> \<le> 2 ^ 29 \<and> \<bar>halfH p\<bar> \<le> 2 ^ 29"

text \<open>
  Two bodies that differ at most in the draw position \<^verbatim>\<open>rect.x\<close>,
  \<^verbatim>\<open>rect.y\<close> and in the angle.
\<close>

definition same_but_position_and_angle :: "Planet \<Rightarrow> Planet \<Rightarrow> bool" where
  "same_but_position_and_angle p q \<longleftrightarrow>
     q = p \<lparr> rect := (rect p) \<lparr> rect_x := rect_x (rect q), rect_y := rect_y (rect q) \<rparr>,
             angle := angle q \<rparr>"

text \<open>\<open>n\<close> calls of \<^verbatim>\<open>updatePosition\<close> on one body, one after the other.\<close>

fun updates :: "nat \<Rightarrow> int \<Rightarrow> int \<Rightarrow> Planet \<Rightarrow> Planet option" where
  "updates 0 sunX sunY p = Some p"
| "updates (Suc n) sunX sunY p =
     (case updatePosition sunX sunY p of
        None \<Rightarrow> None
      | Some p' \<Rightarrow> updates n sunX sunY p')"

text \<open>A sequence of the two member functions applied to one body.\<close>

datatype planet_op = Call_updatePosition int int | Call_render

fun run_ops :: "planet_op list \<Rightarrow> Planet \<Rightarrow> (sdl_call list \<times> Planet) option" where
  "run_ops [] p = Some ([], p)"
| "run_ops (Call_updatePosition sunX sunY # ops) p =
     (case updatePosition sunX sunY p of
        None \<Rightarrow> None
      | Some p' \<Rightarrow> run_ops ops p')"
| "run_ops (Call_render # ops) p =
     (case run_ops ops p of
        None \<Rightarrow> None
      | Some (cs, q) \<Rightarrow> Some (render p # cs, q))"

text \<open>
  A bound that keeps a whole sequence of calls defined: the body is small for the
  centre of each of the updates.
\<close>

fun small_ops :: "planet_op list \<Rightarrow> Planet \<Rightarrow> bool" where
  "small_ops [] p = True"
| "small_ops (Call_updatePosition sunX sunY # ops) p = (small_body sunX sunY p \<and> small_ops ops p)"
| "small_ops (Call_render # ops) p = small_ops ops p"

text \<open>
  Updating the bodies of the array in another order: the indices are visited as
  the list gives them, each body is updated in place. An index outside the array
  has no defined result.
\<close>

fun update_in_order :: "nat list \<Rightarrow> Planet list \<Rightarrow> Planet list option" where
  "update_in_order [] ps = Some ps"
| "update_in_order (i # order) ps =
     (if i < length ps
      then (case updatePosition sunXCoordinate sunYCoordinate (ps ! i) of
              None \<Rightarrow> None
            | Some p' \<Rightarrow> update_in_order order (ps [i := p']))
      else None)"

text \<open>The draw operations among the calls of a trace.\<close>

datatype draw_op = Clear | Draw asset | Present

fun draw_ops :: "sdl_call list \<Rightarrow> draw_op list" where
  "draw_ops [] = []"
| "draw_ops (SDL_RenderClear # cs) = Clear # draw_ops cs"
| "draw_ops (SDL_RenderCopy a r # cs) = Draw a # draw_ops cs"
| "draw_ops (SDL_RenderPresent # cs) = Present # draw_ops cs"
| "draw_ops (c # cs) = draw_ops cs"

definition frame_draw_order :: "draw_op list" where
  "frame_draw_order =
     [Clear, Draw Stars, Draw Sun, Draw Mercury, Draw Venus, Draw Earth, Draw Mars,
      Draw Jupiter, Draw Saturn, Draw Uranus, Draw Neptune, Present]"

text \<open>How many iterations the main loop makes on the given event batches.\<close>

fun iterations :: "event list list \<Rightarrow> nat" where
  "iterations [] = 0"
| "iterations (es # ess) = (if poll_events True es then Suc (iterations ess) else 1)"

text \<open>The two events that end the loop.\<close>

definition quit_event :: "event \<Rightarrow> bool" where
  "quit_event e \<longleftrightarrow> e = SDL_QUIT \<or> e = SDL_KEYDOWN SDLK_ESCAPE"

text \<open>
  A window belongs to the process that created it. After a run a window is left
  open when the process has not exited and its trace has created a window and not
  destroyed it.
\<close>

fun window_left_open :: "sdl_call list \<times> outcome \<Rightarrow> bool" where
  "window_left_open (tr, Exit code) = False"
| "window_left_open (tr, oc) = (SDL_CreateWindow \<in> set tr \<and> SDL_DestroyWindow \<notin> set tr)"

text \<open>The lines written to \<^verbatim>\<open>std::cerr\<close>.\<close>

fun cerr_lines :: "sdl_call list \<Rightarrow> string list" where
  "cerr_lines [] = []"
| "cerr_lines (Cerr s # cs) = s # cerr_lines cs"
| "cerr_lines (c # cs) = cerr_lines cs"

section \<open>Properties\<close>


subsection \<open>Rounding to binary64\<close>

text \<open>
  What is needed of \<open>round64\<close>: its value on a real number whose binade is
  known, the bound of half a unit in the last place on the rounding error, the
  values it returns unchanged, and two bounds that keep a result finite.
\<close>

lemma round_ties_even_cases:
  "round_ties_even y = \<lfloor>y\<rfloor> \<or> round_ties_even y = \<lfloor>y\<rfloor> + 1"
  by (simp add: round_ties_even_def Let_def)

lemma round_ties_even_error: "\<bar>real_of_int (round_ties_even y) - y\<bar> \<le> 1 / 2"
  unfolding round_ties_even_def Let_def by (auto; linarith)

lemma round_ties_even_of_int [simp]: "round_ties_even (real_of_int n) = n"
  by (simp add: round_ties_even_def)

lemma round_ties_even_abs_le:
  assumes "\<bar>y\<bar> \<le> real_of_int n"
  shows "\<bar>round_ties_even y\<bar> \<le> n"
proof -
  have "real_of_int (- n) \<le> y" using assms by (simp add: abs_le_iff)
  then have "- n \<le> \<lfloor>y\<rfloor>" by (simp only: le_floor_iff)
  moreover have "y \<le> real_of_int n" using assms by (simp add: abs_le_iff)
  then have "\<lfloor>y\<rfloor> \<le> n" by (metis floor_mono floor_of_int)
  moreover have "\<lfloor>y\<rfloor> = n \<Longrightarrow> round_ties_even y = n"
  proof -
    assume a: "\<lfloor>y\<rfloor> = n"
    then have "real_of_int n \<le> y" by linarith
    with assms have "y = real_of_int n" by linarith
    then show ?thesis by simp
  qed
  ultimately show ?thesis using round_ties_even_cases [of y] by linarith
qed

lemma two_powr_int: "(2::real) powr real_of_int k = 2 powi k"
  by (simp add: powr_real_of_int')

lemma two_powr_int1: "(2::real) powr (real_of_int k + 1) = 2 powi (k + 1)"
  using two_powr_int [of "k + 1"] by simp

lemma floor_log2_bounds:
  assumes "v \<noteq> 0"
  shows "2 powi \<lfloor>log 2 \<bar>v\<bar>\<rfloor> \<le> \<bar>v\<bar>" "\<bar>v\<bar> < 2 powi (\<lfloor>log 2 \<bar>v\<bar>\<rfloor> + 1)"
proof -
  have p: "0 < \<bar>v\<bar>" using assms by simp
  have "(2::real) powr real_of_int \<lfloor>log 2 \<bar>v\<bar>\<rfloor> \<le> \<bar>v\<bar> \<and>
        \<bar>v\<bar> < 2 powr (real_of_int \<lfloor>log 2 \<bar>v\<bar>\<rfloor> + 1)"
    using floor_log_eq_powr_iff [OF p, of 2 "\<lfloor>log 2 \<bar>v\<bar>\<rfloor>"] by simp
  then show "2 powi \<lfloor>log 2 \<bar>v\<bar>\<rfloor> \<le> \<bar>v\<bar>" "\<bar>v\<bar> < 2 powi (\<lfloor>log 2 \<bar>v\<bar>\<rfloor> + 1)"
    unfolding two_powr_int two_powr_int1 by simp_all
qed

lemma floor_log2_eq:
  assumes "2 powi k \<le> \<bar>v\<bar>" "\<bar>v\<bar> < 2 powi (k + 1)"
  shows "\<lfloor>log 2 \<bar>v\<bar>\<rfloor> = k"
proof -
  have p: "0 < \<bar>v\<bar>" using assms(1) zero_less_power_int [of "2::real" k] by linarith
  have "(2::real) powr real_of_int k \<le> \<bar>v\<bar>" "\<bar>v\<bar> < 2 powr (real_of_int k + 1)"
    unfolding two_powr_int two_powr_int1 using assms by simp_all
  then show ?thesis
    using floor_log_eq_powr_iff [OF p, of 2 k] by simp
qed

lemma floor_log2_le:
  assumes "v \<noteq> 0" "\<bar>v\<bar> < 2 powi (k + 1)"
  shows "\<lfloor>log 2 \<bar>v\<bar>\<rfloor> \<le> k"
proof (rule ccontr)
  assume "\<not> \<lfloor>log 2 \<bar>v\<bar>\<rfloor> \<le> k"
  then have "k + 1 \<le> \<lfloor>log 2 \<bar>v\<bar>\<rfloor>" by simp
  then have "(2::real) powi (k + 1) \<le> 2 powi \<lfloor>log 2 \<bar>v\<bar>\<rfloor>"
    by (intro power_int_increasing) simp_all
  with floor_log2_bounds(1) [OF assms(1)] assms(2) show False by linarith
qed

lemma two_powi_split: "(2::real) powi (a + b) = 2 powi a * 2 powi b"
  by (rule power_int_add) simp

lemma two_powi_pos [simp]: "0 < (2::real) powi a"
  by simp

lemma two_powi_nat: "0 \<le> a \<Longrightarrow> (2::real) powi a = real_of_int (2 ^ nat a)"
  by (simp add: power_int_def)

lemma div_two_powi_le:
  fixes v :: real
  assumes "\<bar>v\<bar> \<le> 2 powi (e + d)"
  shows "\<bar>v / 2 powi e\<bar> \<le> 2 powi d"
proof -
  have "\<bar>v / 2 powi e\<bar> = \<bar>v\<bar> / 2 powi e" by simp
  also have "\<dots> \<le> 2 powi (e + d) / 2 powi e"
    using assms by (intro divide_right_mono) simp_all
  also have "\<dots> = 2 powi d" by (simp add: two_powi_split)
  finally show ?thesis .
qed

lemma round64_Finite:
  assumes "v \<noteq> 0" "ulp_exponent v = e" "\<bar>round_ties_even (v / 2 powi e)\<bar> \<le> 2 ^ nat d"
    and "0 \<le> d" "e + d \<le> 1023"
  shows "round64 v = Finite (real_of_int (round_ties_even (v / 2 powi e)) * 2 powi e)"
    and "\<bar>real_of_int (round_ties_even (v / 2 powi e)) * 2 powi e\<bar> \<le> 2 powi (e + d)"
proof -
  let ?m = "round_ties_even (v / 2 powi e)"
  have "\<bar>real_of_int ?m\<bar> \<le> real_of_int (2 ^ nat d)"
    using assms(3) by linarith
  then have m: "\<bar>real_of_int ?m\<bar> \<le> 2 powi d"
    using assms(4) by (simp add: two_powi_nat)
  have "\<bar>real_of_int ?m\<bar> * 2 powi e \<le> 2 powi d * 2 powi e"
    using m by (intro mult_right_mono) simp_all
  then have b: "\<bar>real_of_int ?m\<bar> * 2 powi e \<le> 2 powi (e + d)"
    by (simp add: two_powi_split mult.commute)
  have "(2::real) powi (e + d) \<le> 2 powi 1023"
    using assms(5) by (intro power_int_increasing) simp_all
  also have "\<dots> < 2 ^ 1024" by simp
  finally have "\<not> 2 ^ 1024 \<le> \<bar>real_of_int ?m\<bar> * 2 powi e" using b by linarith
  then show "round64 v = Finite (real_of_int ?m * 2 powi e)"
    using assms(1,2) by (simp add: round64_def Let_def)
  show "\<bar>real_of_int ?m * 2 powi e\<bar> \<le> 2 powi (e + d)"
    using b by (simp add: abs_mult)
qed

lemma ulp_exponent_normal:
  assumes "2 powi (e + 52) \<le> \<bar>v\<bar>" "\<bar>v\<bar> < 2 powi (e + 53)" "- 1074 \<le> e"
  shows "ulp_exponent v = e"
proof -
  have "\<bar>v\<bar> < 2 powi (e + 52 + 1)" using assms(2) by (simp add: add.assoc)
  then have "\<lfloor>log 2 \<bar>v\<bar>\<rfloor> = e + 52" using assms(1) by (intro floor_log2_eq)
  then show ?thesis using assms(3) by (simp add: ulp_exponent_def)
qed

lemma round64_eval:
  assumes "2 powi (e + 52) \<le> \<bar>v\<bar>" "\<bar>v\<bar> < 2 powi (e + 53)" "- 1074 \<le> e" "e \<le> 970"
  shows "round64 v = Finite (real_of_int (round_ties_even (v / 2 powi e)) * 2 powi e)"
proof -
  have "0 < (2::real) powi (e + 52)" by simp
  then have "0 < \<bar>v\<bar>" using assms(1) by linarith
  then have nz: "v \<noteq> 0" by auto
  have u: "ulp_exponent v = e" using assms(1-3) by (rule ulp_exponent_normal)
  have "\<bar>v / 2 powi e\<bar> \<le> 2 powi 53"
    using assms(2) by (intro div_two_powi_le) simp
  then have "\<bar>v / 2 powi e\<bar> \<le> real_of_int (2 ^ 53)" by simp
  then have "\<bar>round_ties_even (v / 2 powi e)\<bar> \<le> 2 ^ 53" by (rule round_ties_even_abs_le)
  then have "\<bar>round_ties_even (v / 2 powi e)\<bar> \<le> 2 ^ nat 53" by simp
  then show ?thesis using assms(4) by (intro round64_Finite(1) [OF nz u, of 53]) simp_all
qed

lemma round64_error:
  assumes "2 powi j \<le> \<bar>v\<bar>" "\<bar>v\<bar> < 2 powi (j + 1)" "- 1022 \<le> j" "j \<le> 1022"
  shows "\<exists>y. round64 v = Finite y \<and> \<bar>y - v\<bar> \<le> 2 powi (j - 53)"
proof -
  let ?e = "j - 52"
  let ?m = "round_ties_even (v / 2 powi ?e)"
  have lo: "2 powi (?e + 52) \<le> \<bar>v\<bar>" using assms(1) by simp
  have hi: "\<bar>v\<bar> < 2 powi (?e + 53)" using assms(2) by (simp add: add.commute)
  have r: "round64 v = Finite (real_of_int ?m * 2 powi ?e)"
    using assms(3,4) by (intro round64_eval [OF lo hi]) simp_all
  have "real_of_int ?m * 2 powi ?e - v = (real_of_int ?m - v / 2 powi ?e) * 2 powi ?e"
    by (simp add: left_diff_distrib)
  then have "\<bar>real_of_int ?m * 2 powi ?e - v\<bar> = \<bar>real_of_int ?m - v / 2 powi ?e\<bar> * 2 powi ?e"
    by (simp only: abs_mult) simp
  also have "\<dots> \<le> 1 / 2 * 2 powi ?e"
    using round_ties_even_error [of "v / 2 powi ?e"] by (intro mult_right_mono) simp_all
  also have "\<dots> = 2 powi (j - 53)"
    using two_powi_split [of "j - 53" 1] by simp
  finally show ?thesis using r by blast
qed

lemma round64_pow2_bound:
  assumes "- 1074 \<le> k" "k \<le> 1023" "\<bar>v\<bar> \<le> 2 powi k"
  shows "\<exists>y. round64 v = Finite y \<and> \<bar>y\<bar> \<le> 2 powi k"
proof (cases "v = 0")
  case True
  then show ?thesis by (simp add: round64_def)
next
  case False
  define e where "e = ulp_exponent v"
  have "\<bar>v\<bar> < 2 powi (k + 1)"
    using assms(3) power_int_strict_increasing [of k "k + 1" "2::real"] by simp
  then have "\<lfloor>log 2 \<bar>v\<bar>\<rfloor> \<le> k" using False by (intro floor_log2_le)
  then have ek: "e \<le> k" using assms(1) by (simp add: e_def ulp_exponent_def)
  have "\<bar>v\<bar> \<le> 2 powi (e + (k - e))" using assms(3) by simp
  then have "\<bar>v / 2 powi e\<bar> \<le> 2 powi (k - e)" by (rule div_two_powi_le)
  then have "\<bar>v / 2 powi e\<bar> \<le> real_of_int (2 ^ nat (k - e))"
    using ek by (simp add: two_powi_nat)
  then have m: "\<bar>round_ties_even (v / 2 powi e)\<bar> \<le> 2 ^ nat (k - e)"
    by (rule round_ties_even_abs_le)
  have "round64 v = Finite (real_of_int (round_ties_even (v / 2 powi e)) * 2 powi e)"
    and "\<bar>real_of_int (round_ties_even (v / 2 powi e)) * 2 powi e\<bar> \<le> 2 powi (e + (k - e))"
    using ek assms(2) by (intro round64_Finite [OF False _ m]; simp add: e_def)+
  then show ?thesis by simp
qed

lemma round64_stall:
  assumes "- 1022 \<le> k" "k \<le> 1022" "\<bar>v\<bar> \<le> 2 powi k + 2 powi (k - 54)"
  shows "\<exists>y. round64 v = Finite y \<and> \<bar>y\<bar> \<le> 2 powi k"
proof (cases "\<bar>v\<bar> \<le> 2 powi k")
  case True
  then show ?thesis using assms(1,2) by (intro round64_pow2_bound) simp_all
next
  case False
  let ?e = "k - 52"
  let ?m = "round_ties_even (v / 2 powi ?e)"
  have lo: "2 powi (?e + 52) \<le> \<bar>v\<bar>" using False by simp
  have "(2::real) powi (k - 54) < 2 powi k"
    by (intro power_int_strict_increasing) simp_all
  then have "\<bar>v\<bar> < 2 powi k + 2 powi k" using assms(3) by linarith
  also have "\<dots> = 2 powi (k + 1)" using two_powi_split [of k 1] by simp
  finally have hi: "\<bar>v\<bar> < 2 powi (?e + 53)" by (simp add: add.commute)
  have "0 < (2::real) powi (?e + 52)" by simp
  then have "0 < \<bar>v\<bar>" using lo by linarith
  then have nz: "v \<noteq> 0" by auto
  have u: "ulp_exponent v = ?e" using lo hi assms(1) by (intro ulp_exponent_normal) simp_all
  have "\<bar>v / 2 powi ?e\<bar> = \<bar>v\<bar> / 2 powi ?e" by simp
  also have "\<dots> \<le> (2 powi k + 2 powi (k - 54)) / 2 powi ?e"
    using assms(3) by (intro divide_right_mono) simp_all
  also have "\<dots> = 2 powi 52 + 2 powi (- 2)"
    using two_powi_split [of ?e 52] two_powi_split [of ?e "- 2"] by (simp add: add_divide_distrib)
  finally have "\<bar>v / 2 powi ?e\<bar> \<le> 2 ^ 52 + 1 / 4" by (simp add: power_int_minus)
  moreover have "\<bar>real_of_int ?m\<bar> \<le> \<bar>v / 2 powi ?e\<bar> + 1 / 2"
    using round_ties_even_error [of "v / 2 powi ?e"] by linarith
  ultimately have "\<bar>real_of_int ?m\<bar> \<le> 2 ^ 52 + 3 / 4" by linarith
  then have "\<bar>real_of_int ?m\<bar> < real_of_int (2 ^ 52 + 1)" by simp
  then have "\<bar>?m\<bar> < 2 ^ 52 + 1" by linarith
  then have m: "\<bar>?m\<bar> \<le> 2 ^ nat 52" by simp
  have "round64 v = Finite (real_of_int ?m * 2 powi ?e)"
    and "\<bar>real_of_int ?m * 2 powi ?e\<bar> \<le> 2 powi (?e + 52)"
    using assms(2) by (intro round64_Finite [OF nz u m]; simp)+
  then show ?thesis by simp
qed

lemma round64_representable:
  assumes "\<bar>n\<bar> < 2 ^ 53" "- 1074 \<le> k" "k \<le> 970"
  shows "round64 (real_of_int n * 2 powi k) = Finite (real_of_int n * 2 powi k)"
proof (cases "n = 0")
  case True
  then show ?thesis by (simp add: round64_def)
next
  case False
  define v where "v = real_of_int n * 2 powi k"
  define e where "e = ulp_exponent v"
  have nz: "v \<noteq> 0" using False by (simp add: v_def)
  have "\<bar>real_of_int n\<bar> < real_of_int (2 ^ 53)" using assms(1) by linarith
  then have n53: "\<bar>real_of_int n\<bar> < 2 powi 53" by simp
  have "\<bar>v\<bar> = \<bar>real_of_int n\<bar> * 2 powi k" by (simp add: v_def abs_mult)
  also have "\<dots> < 2 powi 53 * 2 powi k"
    using n53 by (intro mult_strict_right_mono) simp_all
  also have "\<dots> = 2 powi (k + 52 + 1)" using two_powi_split [of 53 k] by (simp add: add.commute)
  finally have vb: "\<bar>v\<bar> < 2 powi (k + 52 + 1)" .
  then have "\<lfloor>log 2 \<bar>v\<bar>\<rfloor> \<le> k + 52" using nz by (intro floor_log2_le)
  then have ek: "e \<le> k" using assms(2) by (simp add: e_def ulp_exponent_def)
  define N where "N = n * 2 ^ nat (k - e)"
  have p: "(2::real) powi k = real_of_int (2 ^ nat (k - e)) * 2 powi e"
    using two_powi_split [of "k - e" e] ek by (simp add: two_powi_nat)
  have bk: "real_of_int N * 2 powi e = v"
    by (simp add: N_def v_def p)
  then have q: "v / 2 powi e = real_of_int N" by (simp add: field_simps)
  have "\<bar>N\<bar> = \<bar>n\<bar> * 2 ^ nat (k - e)" by (simp add: N_def abs_mult)
  also have "\<dots> \<le> 2 ^ 53 * 2 ^ nat (k - e)"
    using assms(1) by (intro mult_right_mono) simp_all
  also have "\<dots> = 2 ^ nat (53 + (k - e))"
    using ek by (simp add: nat_add_distrib power_add)
  finally have m: "\<bar>round_ties_even (v / 2 powi e)\<bar> \<le> 2 ^ nat (53 + (k - e))"
    by (simp add: q)
  have "round64 v = Finite (real_of_int (round_ties_even (v / 2 powi e)) * 2 powi e)"
    using ek assms(3) by (intro round64_Finite(1) [OF nz _ m]) (simp_all add: e_def)
  then show ?thesis by (simp add: q bk) (simp add: v_def)
qed

lemma round64_of_int: "\<bar>n\<bar> < 2 ^ 53 \<Longrightarrow> round64 (real_of_int n) = Finite (real_of_int n)"
  using round64_representable [of n 0] by simp


subsection \<open>The literals of the program\<close>

text \<open>
  The radii and the angles of the eight bodies are integers and are doubles as
  they stand. The literal \<^verbatim>\<open>0.02\<close> is not: the double nearest to it is
  \<open>5764607523034235 / 2 ^ 58\<close>. The sums below are the angle of the Earth
  after its first and second update, the sum of \<open>135\<close> and twice the speed,
  and a sum that rounding leaves at its first operand.
\<close>

lemma literal_of_int: "\<bar>n\<bar> < 2 ^ 53 \<Longrightarrow> literal (real_of_int n) = Finite (real_of_int n)"
  by (simp add: literal_def round64_of_int)

lemma literal_radii:
  "literal 80.0 = Finite 80" "literal 125.0 = Finite 125" "literal 175.0 = Finite 175"
  "literal 225.0 = Finite 225" "literal 290.0 = Finite 290" "literal 380.0 = Finite 380"
  "literal 470.0 = Finite 470" "literal 550.0 = Finite 550"
  using literal_of_int [of 80] literal_of_int [of 125] literal_of_int [of 175]
    literal_of_int [of 225] literal_of_int [of 290] literal_of_int [of 380]
    literal_of_int [of 470] literal_of_int [of 550]
  by simp_all

lemma literal_angles:
  "literal 45.0 = Finite 45" "literal 90.0 = Finite 90" "literal 135.0 = Finite 135"
  "literal 180.0 = Finite 180" "literal 225.0 = Finite 225" "literal 270.0 = Finite 270"
  "literal 315.0 = Finite 315" "literal 0.0 = Finite 0"
  using literal_of_int [of 45] literal_of_int [of 90] literal_of_int [of 135]
    literal_of_int [of 180] literal_of_int [of 225] literal_of_int [of 270]
    literal_of_int [of 315] literal_of_int [of 0]
  by simp_all

lemma round_ties_even_eval:
  assumes "real_of_int m - 1 / 2 < y" "y < real_of_int m + 1 / 2"
  shows "round_ties_even y = m"
proof -
  have "\<bar>real_of_int (round_ties_even y) - y\<bar> \<le> 1 / 2" by (rule round_ties_even_error)
  then have "\<bar>real_of_int (round_ties_even y) - real_of_int m\<bar> < 1" using assms by linarith
  then have "\<bar>round_ties_even y - m\<bar> < 1" by linarith
  then show ?thesis by simp
qed

lemma literal_speed: "literal 0.02 = Finite (5764607523034235 / 2 ^ 58)"
proof -
  have r: "round_ties_even (0.02 / 2 powi (- 58)) = 5764607523034235"
    by (rule round_ties_even_eval) (simp_all add: power_int_minus)
  have "round64 0.02 = Finite (real_of_int (round_ties_even (0.02 / 2 powi (- 58))) * 2 powi (- 58))"
    by (rule round64_eval) (simp_all add: power_int_minus)
  then show ?thesis unfolding r literal_def by (simp add: power_int_minus)
qed

lemma earth_angle_1:
  "double_add (Finite 135) (Finite (5764607523034235 / 2 ^ 58)) = Finite (4750593919434097 / 2 ^ 45)"
proof -
  let ?v = "135 + 5764607523034235 / 2 ^ 58 :: real"
  have r: "round_ties_even (?v / 2 powi (- 45)) = 4750593919434097"
    by (rule round_ties_even_eval) (simp_all add: power_int_minus)
  have "round64 ?v = Finite (real_of_int (round_ties_even (?v / 2 powi (- 45))) * 2 powi (- 45))"
    by (rule round64_eval) (simp_all add: power_int_minus)
  then show ?thesis unfolding r by (simp add: power_int_minus)
qed

lemma earth_angle_2:
  "double_add (Finite (4750593919434097 / 2 ^ 45)) (Finite (5764607523034235 / 2 ^ 58))
     = Finite (4751297606875874 / 2 ^ 45)"
proof -
  let ?v = "4750593919434097 / 2 ^ 45 + 5764607523034235 / 2 ^ 58 :: real"
  have r: "round_ties_even (?v / 2 powi (- 45)) = 4751297606875874"
    by (rule round_ties_even_eval) (simp_all add: power_int_minus)
  have "round64 ?v = Finite (real_of_int (round_ties_even (?v / 2 powi (- 45))) * 2 powi (- 45))"
    by (rule round64_eval) (simp_all add: power_int_minus)
  then show ?thesis unfolding r by (simp add: power_int_minus)
qed

lemma twice_speed:
  "double_mul (Finite 2) (Finite (5764607523034235 / 2 ^ 58)) = Finite (5764607523034235 / 2 ^ 57)"
proof -
  have e: "real_of_int 5764607523034235 * 2 powi (- 57) = 5764607523034235 / 2 ^ 57"
    by (simp add: power_int_minus field_simps)
  have "round64 (real_of_int 5764607523034235 * 2 powi (- 57))
      = Finite (real_of_int 5764607523034235 * 2 powi (- 57))"
    by (rule round64_representable) simp_all
  then have "round64 (5764607523034235 / 2 ^ 57) = Finite (5764607523034235 / 2 ^ 57)"
    unfolding e .
  moreover have "2 * (5764607523034235 / 2 ^ 58) = (5764607523034235 / 2 ^ 57 :: real)"
    by simp
  ultimately show ?thesis by simp
qed

lemma earth_angle_direct:
  "double_add (Finite 135) (Finite (5764607523034235 / 2 ^ 57)) = Finite (4751297606875873 / 2 ^ 45)"
proof -
  let ?v = "135 + 5764607523034235 / 2 ^ 57 :: real"
  have r: "round_ties_even (?v / 2 powi (- 45)) = 4751297606875873"
    by (rule round_ties_even_eval) (simp_all add: power_int_minus)
  have "round64 ?v = Finite (real_of_int (round_ties_even (?v / 2 powi (- 45))) * 2 powi (- 45))"
    by (rule round64_eval) (simp_all add: power_int_minus)
  then show ?thesis unfolding r by (simp add: power_int_minus)
qed

lemma stalled_angle: "double_add (Finite (2 ^ 53)) (Finite 1) = Finite (2 ^ 53)"
proof -
  let ?v = "2 ^ 53 + 1 :: real"
  have r: "round_ties_even (?v / 2 powi 1) = 2 ^ 52"
    by (simp add: round_ties_even_def)
  have "round64 ?v = Finite (real_of_int (round_ties_even (?v / 2 powi 1)) * 2 powi 1)"
    by (rule round64_eval) simp_all
  then show ?thesis unfolding r by simp
qed

subsection \<open>The cosine and the sine of 135 radians\<close>

text \<open>
  The Earth starts at the angle \<open>135.0\<close>, which \<^verbatim>\<open>cos\<close> and \<^verbatim>\<open>sin\<close>
  take in radians. \<open>135 = 43 pi - d\<close> with \<open>d\<close> close to \<open>0.0885\<close>,
  so \<open>cos 135 = - cos d\<close> and \<open>sin 135 = sin d\<close>. The bounds on \<open>pi\<close>
  come from the Taylor polynomials of sine and cosine at a point close to
  \<open>pi / 4\<close>. The binary64 products \<open>175 * cos 135\<close> and
  \<open>175 * sin 135\<close> are then within \<open>0.02\<close> of the exact ones, and are cut
  to \<open>-174\<close> and \<open>15\<close>.
\<close>

lemma sum_lessThan_9:
  "(\<Sum>m<9. f m) = f 0 + f 1 + f 2 + f 3 + f 4 + f 5 + f 6 + f 7 + (f 8 :: real)" for f :: "nat \<Rightarrow> real"
  by (simp add: eval_nat_numeral)

lemma sum_lessThan_10:
  "(\<Sum>m<10. f m) = f 0 + f 1 + f 2 + f 3 + f 4 + f 5 + f 6 + f 7 + f 8 + (f 9 :: real)" for f :: "nat \<Rightarrow> real"
  by (simp add: eval_nat_numeral)

lemma sin_coeffs:
  "sin_coeff (Suc 0) = 1" "sin_coeff 2 = 0" "sin_coeff 3 = - 1 / 6" "sin_coeff 4 = 0"
  "sin_coeff 5 = 1 / 120" "sin_coeff 6 = 0" "sin_coeff 7 = - 1 / 5040" "sin_coeff 8 = 0"
  by (simp_all add: sin_coeff_def fact_numeral)

lemma cos_coeffs:
  "cos_coeff (Suc 0) = 0" "cos_coeff 2 = - 1 / 2" "cos_coeff 3 = 0" "cos_coeff 4 = 1 / 24"
  "cos_coeff 5 = 0" "cos_coeff 6 = - 1 / 720" "cos_coeff 7 = 0" "cos_coeff 8 = 1 / 40320"
  "cos_coeff 9 = 0"
  by (simp_all add: cos_coeff_def fact_numeral)

lemma sin_poly_bound:
  fixes x :: real
  shows "\<bar>sin x - (x - x ^ 3 / 6 + x ^ 5 / 120 - x ^ 7 / 5040)\<bar> \<le> \<bar>x\<bar> ^ 9 / 362880"
proof -
  have s: "(\<Sum>m<9. sin_coeff m * x ^ m) = x - x ^ 3 / 6 + x ^ 5 / 120 - x ^ 7 / 5040"
    by (simp add: sum_lessThan_9 sin_coeffs)
  have f: "inverse (fact 9 :: real) = 1 / 362880"
    by (simp add: fact_numeral)
  have "\<bar>sin x - (\<Sum>m<9. sin_coeff m * x ^ m)\<bar> \<le> inverse (fact 9) * \<bar>x\<bar> ^ 9"
    by (rule Maclaurin_sin_bound)
  then have "\<bar>sin x - (x - x ^ 3 / 6 + x ^ 5 / 120 - x ^ 7 / 5040)\<bar> \<le> 1 / 362880 * \<bar>x\<bar> ^ 9"
    unfolding s f .
  then show ?thesis by simp
qed

lemma cos_poly_bound:
  fixes x :: real
  assumes "0 < x"
  shows "\<bar>cos x - (1 - x ^ 2 / 2 + x ^ 4 / 24 - x ^ 6 / 720 + x ^ 8 / 40320)\<bar> \<le> x ^ 10 / 3628800"
proof -
  obtain t where t: "cos x = (\<Sum>m<10. cos_coeff m * x ^ m)
      + (cos (t + 1/2 * real 10 * pi) / fact 10) * x ^ 10"
    using Maclaurin_cos_expansion2 [OF assms, of 10] by auto
  have s: "(\<Sum>m<10. cos_coeff m * x ^ m) = 1 - x ^ 2 / 2 + x ^ 4 / 24 - x ^ 6 / 720 + x ^ 8 / 40320"
    by (simp add: sum_lessThan_10 cos_coeffs)
  have "\<bar>(cos (t + 1/2 * real 10 * pi) / fact 10) * x ^ 10\<bar>
      = \<bar>cos (t + 1/2 * real 10 * pi)\<bar> * (x ^ 10 / 3628800)"
    using assms by (simp add: abs_mult fact_numeral)
  also have "\<dots> \<le> 1 * (x ^ 10 / 3628800)"
    using assms by (intro mult_right_mono abs_cos_le_one) simp
  finally have "\<bar>(cos (t + 1/2 * real 10 * pi) / fact 10) * x ^ 10\<bar> \<le> x ^ 10 / 3628800"
    by simp
  then show ?thesis unfolding t s by simp
qed

lemma pi_gt_4x:
  fixes x :: real
  assumes "0 < x" "x \<le> 1" "sin x < cos x"
  shows "4 * x < pi"
proof (rule ccontr)
  assume "\<not> 4 * x < pi"
  then have q: "pi / 4 \<le> x" by simp
  have h: "x \<le> pi / 2" using assms(2) pi_ge_two by simp
  have "cos x \<le> cos (pi / 4)"
    using q h by (intro cos_monotone_0_pi_le) simp_all
  also have "\<dots> = sin (pi / 4)" by (simp add: cos_45 sin_45)
  also have "\<dots> \<le> sin x"
    using q h by (intro sin_monotone_2pi_le) simp_all
  finally show False using assms(3) by simp
qed

lemma pi_lt_4x:
  fixes x :: real
  assumes "0 < x" "x \<le> 1" "cos x < sin x"
  shows "pi < 4 * x"
proof (rule ccontr)
  assume "\<not> pi < 4 * x"
  then have q: "x \<le> pi / 4" by simp
  have "sin x \<le> sin (pi / 4)"
    using q assms(1) by (intro sin_monotone_2pi_le) simp_all
  also have "\<dots> = cos (pi / 4)" by (simp add: cos_45 sin_45)
  also have "\<dots> \<le> cos x"
    using q assms(1) by (intro cos_monotone_0_pi_le) simp_all
  finally show False using assms(3) by simp
qed

lemma pi_lower: "3.14155 < pi"
proof -
  let ?x = "62831 / 80000 :: real"
  have s: "sin ?x \<le> (?x - ?x ^ 3 / 6 + ?x ^ 5 / 120 - ?x ^ 7 / 5040) + \<bar>?x\<bar> ^ 9 / 362880"
    using sin_poly_bound [of ?x] by linarith
  have c: "(1 - ?x ^ 2 / 2 + ?x ^ 4 / 24 - ?x ^ 6 / 720 + ?x ^ 8 / 40320) - ?x ^ 10 / 3628800 \<le> cos ?x"
    using cos_poly_bound [of ?x] by linarith
  have n: "(?x - ?x ^ 3 / 6 + ?x ^ 5 / 120 - ?x ^ 7 / 5040) + \<bar>?x\<bar> ^ 9 / 362880
      < (1 - ?x ^ 2 / 2 + ?x ^ 4 / 24 - ?x ^ 6 / 720 + ?x ^ 8 / 40320) - ?x ^ 10 / 3628800"
    by (simp add: power_divide)
  have "sin ?x < cos ?x" using s c n by linarith
  then have "4 * ?x < pi" by (intro pi_gt_4x) simp_all
  then show ?thesis by simp
qed

lemma pi_upper: "pi < 3.14165"
proof -
  let ?x = "62833 / 80000 :: real"
  have s: "(?x - ?x ^ 3 / 6 + ?x ^ 5 / 120 - ?x ^ 7 / 5040) - \<bar>?x\<bar> ^ 9 / 362880 \<le> sin ?x"
    using sin_poly_bound [of ?x] by linarith
  have c: "cos ?x \<le> (1 - ?x ^ 2 / 2 + ?x ^ 4 / 24 - ?x ^ 6 / 720 + ?x ^ 8 / 40320) + ?x ^ 10 / 3628800"
    using cos_poly_bound [of ?x] by linarith
  have n: "(1 - ?x ^ 2 / 2 + ?x ^ 4 / 24 - ?x ^ 6 / 720 + ?x ^ 8 / 40320) + ?x ^ 10 / 3628800
      < (?x - ?x ^ 3 / 6 + ?x ^ 5 / 120 - ?x ^ 7 / 5040) - \<bar>?x\<bar> ^ 9 / 362880"
    by (simp add: power_divide)
  have "cos ?x < sin ?x" using s c n by linarith
  then have "pi < 4 * ?x" by (intro pi_lt_4x) simp_all
  then show ?thesis by simp
qed

lemma cos_ge_quadratic: "1 - x\<^sup>2 / 2 \<le> cos x" for x :: real
proof -
  have "\<bar>sin (x / 2)\<bar> \<le> \<bar>x / 2\<bar>" by (rule abs_sin_x_le_abs_x)
  then have "(sin (x / 2))\<^sup>2 \<le> (x / 2)\<^sup>2"
    by (simp only: abs_le_square_iff)
  moreover have "cos x = 1 - 2 * (sin (x / 2))\<^sup>2"
    using cos_double_sin [of "x / 2"] by simp
  ultimately show ?thesis by (simp add: power_divide)
qed

lemma sin_ge_cubic:
  fixes x :: real
  assumes "0 \<le> x" "x \<le> 1"
  shows "x - x ^ 3 / 6 \<le> sin x"
proof -
  have a: "x ^ 7 \<le> x ^ 5" using assms by (intro power_decreasing) simp_all
  have b: "x ^ 9 \<le> x ^ 5" using assms by (intro power_decreasing) simp_all
  have "0 \<le> x ^ 5" using assms by simp
  have "x - x ^ 3 / 6 + x ^ 5 / 120 - x ^ 7 / 5040 - \<bar>x\<bar> ^ 9 / 362880 \<le> sin x"
    using sin_poly_bound [of x] by linarith
  moreover have "\<bar>x\<bar> = x" using assms by simp
  ultimately show ?thesis using a b \<open>0 \<le> x ^ 5\<close> by linarith
qed

lemma angle_135:
  defines "d \<equiv> 43 * pi - 135"
  shows "cos (135::real) = - cos d" "sin (135::real) = sin d" "0.08665 < d" "d < 0.09095"
proof -
  have e: "(135::real) = 43 * pi - d" by (simp add: d_def)
  show "cos (135::real) = - cos d"
    by (subst e, subst cos_diff) simp
  show "sin (135::real) = sin d"
    by (subst e, subst sin_diff) simp
  show "0.08665 < d" using pi_lower by (simp add: d_def)
  show "d < 0.09095" using pi_upper by (simp add: d_def)
qed


lemma earth_cos_tight: "- 174.9 < 175 * cos (135::real)" "175 * cos (135::real) < - 174.1"
proof -
  define d :: real where "d = 43 * pi - 135"
  note a = angle_135 [folded d_def]
  define h where "h = d / 2"
  have h: "0 \<le> h" "h \<le> 1" "0.043325 < h" "h < 0.045475"
    using a(3,4) by (simp_all add: h_def)
  have "h ^ 3 \<le> 0.045475 ^ 3" using h by (intro power_mono) simp_all
  also have "\<dots> \<le> (0.0001::real)" by (simp add: power3_eq_cube)
  finally have "h ^ 3 / 6 \<le> 0.0001 / 6" by simp
  then have "0.0433 \<le> h - h ^ 3 / 6" using h(3) by simp
  also have "\<dots> \<le> sin h" using h(1,2) by (rule sin_ge_cubic)
  finally have s: "0.0433 \<le> sin (d / 2)" by (simp add: h_def)
  then have "0.0433\<^sup>2 \<le> (sin (d / 2))\<^sup>2" by (intro power_mono) simp_all
  moreover have "cos d = 1 - 2 * (sin (d / 2))\<^sup>2"
    using cos_double_sin [of "d / 2"] by simp
  ultimately have "cos d \<le> 1 - 2 * 0.0433\<^sup>2" by linarith
  then have "cos d < 174.9 / 175" by (simp add: power2_eq_square)
  then show "- 174.9 < 175 * cos (135::real)" unfolding a(1) by simp
  have "d\<^sup>2 \<le> 0.09095\<^sup>2" using a(3,4) by (intro power_mono) simp_all
  then have "1 - 0.09095\<^sup>2 / 2 \<le> 1 - d\<^sup>2 / 2" by linarith
  also have "\<dots> \<le> cos d" by (rule cos_ge_quadratic)
  finally have "174.1 / 175 < cos d" by (simp add: power2_eq_square)
  then show "175 * cos (135::real) < - 174.1" unfolding a(1) by simp
qed

lemma earth_sin_tight: "15.1 < 175 * sin (135::real)" "175 * sin (135::real) < 15.95"
proof -
  define d :: real where "d = 43 * pi - 135"
  note a = angle_135 [folded d_def]
  have "sin d \<le> d" using a(3) by (intro sin_x_le_x) simp
  then show "175 * sin (135::real) < 15.95" unfolding a(2) using a(4) by simp
  have "d ^ 3 \<le> 0.09095 ^ 3" using a(3,4) by (intro power_mono) simp_all
  then have "0.08665 - 0.09095 ^ 3 / 6 \<le> d - d ^ 3 / 6" using a(3) by linarith
  also have "\<dots> \<le> sin d" using a(3,4) by (intro sin_ge_cubic) simp_all
  finally have "15.1 / 175 < sin d" by (simp add: power3_eq_cube)
  then show "15.1 < 175 * sin (135::real)" unfolding a(2) by simp
qed

lemma earth_product_cos:
  "\<exists>z. double_mul (Finite 175) (double_cos (Finite 135)) = Finite z \<and> - 174.92 < z \<and> z < - 174.08"
proof -
  have c: "- 174.9 / 175 < cos (135::real)" "cos (135::real) < - 174.1 / 175"
    using earth_cos_tight by simp_all
  have "2 powi (- 1) \<le> \<bar>cos (135::real)\<bar>" "\<bar>cos (135::real)\<bar> < 2 powi (- 1 + 1)"
    using c by (simp_all add: power_int_minus)
  then obtain y where y: "round64 (cos 135) = Finite y" "\<bar>y - cos 135\<bar> \<le> 2 powi (- 1 - 53)"
    using round64_error [of "- 1" "cos 135"] by auto
  have "(2::real) powi (- 1 - 53) \<le> 1 / 1000000" by (simp add: power_int_minus)
  with y(2) have "\<bar>y - cos 135\<bar> \<le> 1 / 1000000" by linarith
  then have "y - cos 135 \<le> 1 / 1000000" "- (1 / 1000000) \<le> y - cos 135"
    by (simp_all only: abs_le_iff) linarith+
  then have yb: "- 174.91 < 175 * y" "175 * y < - 174.09"
    using c by simp_all
  then have "2 powi 7 \<le> \<bar>175 * y\<bar>" "\<bar>175 * y\<bar> < 2 powi (7 + 1)"
    by simp_all
  then obtain z where z: "round64 (175 * y) = Finite z" "\<bar>z - 175 * y\<bar> \<le> 2 powi (7 - 53)"
    using round64_error [of 7 "175 * y"] by auto
  have "(2::real) powi (7 - 53) \<le> 1 / 1000" by (simp add: power_int_minus)
  with z(2) have "\<bar>z - 175 * y\<bar> \<le> 1 / 1000" by linarith
  then have "z - 175 * y \<le> 1 / 1000" "- (1 / 1000) \<le> z - 175 * y"
    by (simp_all only: abs_le_iff) linarith+
  then have "- 174.92 < z" "z < - 174.08" using yb by simp_all
  then show ?thesis using y(1) z(1) by simp
qed

lemma earth_product_sin:
  "\<exists>z. double_mul (Finite 175) (double_sin (Finite 135)) = Finite z \<and> 15.08 < z \<and> z < 15.97"
proof -
  have c: "15.1 / 175 < sin (135::real)" "sin (135::real) < 15.95 / 175"
    using earth_sin_tight by simp_all
  have "2 powi (- 4) \<le> \<bar>sin (135::real)\<bar>" "\<bar>sin (135::real)\<bar> < 2 powi (- 4 + 1)"
    using c by (simp_all add: power_int_minus)
  then obtain y where y: "round64 (sin 135) = Finite y" "\<bar>y - sin 135\<bar> \<le> 2 powi (- 4 - 53)"
    using round64_error [of "- 4" "sin 135"] by auto
  have "(2::real) powi (- 4 - 53) \<le> 1 / 1000000" by (simp add: power_int_minus)
  with y(2) have "\<bar>y - sin 135\<bar> \<le> 1 / 1000000" by linarith
  then have "y - sin 135 \<le> 1 / 1000000" "- (1 / 1000000) \<le> y - sin 135"
    by (simp_all only: abs_le_iff) linarith+
  then have yb: "15.09 < 175 * y" "175 * y < 15.96"
    using c by simp_all
  then have "2 powi 3 \<le> \<bar>175 * y\<bar>" "\<bar>175 * y\<bar> < 2 powi (3 + 1)"
    by simp_all
  then obtain z where z: "round64 (175 * y) = Finite z" "\<bar>z - 175 * y\<bar> \<le> 2 powi (3 - 53)"
    using round64_error [of 3 "175 * y"] by auto
  have "(2::real) powi (3 - 53) \<le> 1 / 1000" by (simp add: power_int_minus)
  with z(2) have "\<bar>z - 175 * y\<bar> \<le> 1 / 1000" by linarith
  then have "z - 175 * y \<le> 1 / 1000" "- (1 / 1000) \<le> z - 175 * y"
    by (simp_all only: abs_le_iff) linarith+
  then have "15.08 < z" "z < 15.97" using yb by simp_all
  then show ?thesis using y(1) z(1) by simp
qed

lemma earth_truncations:
  "is_finite (double_mul (Finite 175) (double_cos (Finite 135)))"
  "truncated (double_mul (Finite 175) (double_cos (Finite 135))) = - 174"
  "is_finite (double_mul (Finite 175) (double_sin (Finite 135)))"
  "truncated (double_mul (Finite 175) (double_sin (Finite 135))) = 15"
proof -
  obtain z where z: "double_mul (Finite 175) (double_cos (Finite 135)) = Finite z"
    "- 174.92 < z" "z < - 174.08"
    using earth_product_cos by blast
  have "\<lceil>z\<rceil> = - 174" using z(2,3) by (intro ceiling_unique) simp_all
  then show "is_finite (double_mul (Finite 175) (double_cos (Finite 135)))"
    and "truncated (double_mul (Finite 175) (double_cos (Finite 135))) = - 174"
    using z by (simp_all add: truncate_toward_zero_def)
  obtain w where w: "double_mul (Finite 175) (double_sin (Finite 135)) = Finite w"
    "15.08 < w" "w < 15.97"
    using earth_product_sin by blast
  have "\<lfloor>w\<rfloor> = 15" using w(2,3) by (intro floor_unique) simp_all
  then show "is_finite (double_mul (Finite 175) (double_sin (Finite 135)))"
    and "truncated (double_mul (Finite 175) (double_sin (Finite 135))) = 15"
    using w by (simp_all add: truncate_toward_zero_def)
qed

subsection \<open>Truncation and ranges\<close>

lemma truncate_abs_le: "\<bar>real_of_int (truncate_toward_zero v)\<bar> \<le> \<bar>v\<bar>"
proof (cases "0 \<le> v")
  case True
  then have "0 \<le> \<lfloor>v\<rfloor>" by simp
  moreover have "real_of_int \<lfloor>v\<rfloor> \<le> v" by (rule of_int_floor_le)
  ultimately show ?thesis using True by (simp add: truncate_toward_zero_def)
next
  case False
  then have "\<lceil>v\<rceil> \<le> 0" by (simp add: ceiling_le_zero)
  moreover have "v \<le> real_of_int \<lceil>v\<rceil>" by (rule le_of_int_ceiling)
  ultimately show ?thesis using False by (simp add: truncate_toward_zero_def)
qed

lemma truncate_bounded:
  assumes "\<bar>v\<bar> \<le> real_of_int b"
  shows "\<bar>truncate_toward_zero v\<bar> \<le> b"
proof -
  have "\<bar>real_of_int (truncate_toward_zero v)\<bar> \<le> real_of_int b"
    using truncate_abs_le [of v] assms by linarith
  then show ?thesis by linarith
qed


lemma in_int_range_abs: "\<bar>i\<bar> \<le> 2147483647 \<Longrightarrow> in_int_range i"
  unfolding in_int_range_def INT_MIN_def INT_MAX_def by simp linarith

subsection \<open>Finite results\<close>

lemma finite_withinE:
  assumes "finite_within b x"
  obtains v where "x = Finite v" "\<bar>v\<bar> \<le> b"
  using assms by (cases x) simp_all

lemma finite_within_mono: "finite_within b x \<Longrightarrow> b \<le> c \<Longrightarrow> finite_within c x"
  by (cases x) simp_all

lemma finite_within_is_finite: "finite_within b x \<Longrightarrow> is_finite x"
  by (cases x) simp_all

lemma is_finiteE:
  assumes "is_finite x"
  obtains v where "x = Finite v"
  using assms by (cases x) simp_all

lemma round64_within:
  assumes "\<bar>v\<bar> \<le> 2 powi k" "- 1074 \<le> k" "k \<le> 1023"
  shows "finite_within (2 powi k) (round64 v)"
proof -
  obtain y where "round64 v = Finite y" "\<bar>y\<bar> \<le> 2 powi k"
    using round64_pow2_bound [OF assms(2,3,1)] by blast
  then show ?thesis by simp
qed

lemma double_cos_within: "is_finite a \<Longrightarrow> finite_within 1 (double_cos a)"
proof (erule is_finiteE)
  fix v assume a: "a = Finite v"
  have "finite_within (2 powi 0) (round64 (cos v))"
    by (rule round64_within) (simp_all add: abs_cos_le_one)
  then show ?thesis by (simp add: a)
qed

lemma double_sin_within: "is_finite a \<Longrightarrow> finite_within 1 (double_sin a)"
proof (erule is_finiteE)
  fix v assume a: "a = Finite v"
  have "finite_within (2 powi 0) (round64 (sin v))"
    by (rule round64_within) (simp_all add: abs_sin_le_one)
  then show ?thesis by (simp add: a)
qed

lemma double_mul_within:
  assumes a: "finite_within (2 powi j) a" and b: "finite_within (2 powi k) b"
    and r: "- 1074 \<le> j + k" "j + k \<le> 1023"
  shows "finite_within (2 powi (j + k)) (double_mul a b)"
proof -
  from a obtain x where x: "a = Finite x" "\<bar>x\<bar> \<le> 2 powi j" by (rule finite_withinE)
  from b obtain y where y: "b = Finite y" "\<bar>y\<bar> \<le> 2 powi k" by (rule finite_withinE)
  have "\<bar>x * y\<bar> = \<bar>x\<bar> * \<bar>y\<bar>" by (rule abs_mult)
  also have "\<dots> \<le> 2 powi j * 2 powi k"
    using x(2) y(2) by (intro mult_mono) simp_all
  also have "\<dots> = (2::real) powi (j + k)" by (simp add: power_int_add)
  finally have "finite_within (2 powi (j + k)) (round64 (x * y))"
    using r by (intro round64_within)
  then show ?thesis by (simp add: x y)
qed

lemma radius_product_within:
  assumes "finite_within (2 ^ k) r" "finite_within 1 c" "k \<le> 1023"
  shows "finite_within (2 ^ k) (double_mul r c)"
proof -
  have "finite_within (2 powi (int k + 0)) (double_mul r c)"
    using assms by (intro double_mul_within) simp_all
  then show ?thesis by simp
qed

lemma truncated_within:
  assumes "finite_within (real_of_int b) x"
  shows "\<bar>truncated x\<bar> \<le> b"
proof -
  from assms obtain v where "x = Finite v" "\<bar>v\<bar> \<le> real_of_int b" by (rule finite_withinE)
  then show ?thesis by (simp add: truncate_bounded)
qed

subsection \<open>updatePosition\<close>

lemma static_cast_int_eq:
  "static_cast_int x = (if is_finite x \<and> in_int_range (truncated x) then Some (truncated x) else None)"
  by (cases x) (simp_all add: int_result_def)

lemma updatePosition_eq:
  "updatePosition sunX sunY p =
     (if update_defined sunX sunY p then Some (updated sunX sunY p) else None)"
  by (simp add: updatePosition_def update_defined_def updated_def static_cast_int_eq int_add_def
      int_sub_def int_result_def)

lemma updatePosition_SomeD:
  "updatePosition sunX sunY p = Some p' \<Longrightarrow> update_defined sunX sunY p \<and> p' = updated sunX sunY p"
  by (simp add: updatePosition_eq split: if_splits)

lemma update_defined_bounds:
  assumes r: "finite_within (2 ^ k) (orbitRadius p)" and k: "k \<le> 1023"
    and a: "is_finite (angle p)"
    and x: "\<bar>sunX\<bar> + 2 ^ k + \<bar>halfW p\<bar> \<le> 2147483647"
    and y: "\<bar>sunY\<bar> + 2 ^ k + \<bar>halfH p\<bar> \<le> 2147483647"
  shows "update_defined sunX sunY p"
proof -
  have pc: "finite_within (2 ^ k) (double_mul (orbitRadius p) (double_cos (angle p)))"
    using r double_cos_within [OF a] k by (rule radius_product_within)
  have ps: "finite_within (2 ^ k) (double_mul (orbitRadius p) (double_sin (angle p)))"
    using r double_sin_within [OF a] k by (rule radius_product_within)
  have c: "\<bar>truncated (double_mul (orbitRadius p) (double_cos (angle p)))\<bar> \<le> 2 ^ k"
    using pc by (intro truncated_within) simp
  have s: "\<bar>truncated (double_mul (orbitRadius p) (double_sin (angle p)))\<bar> \<le> 2 ^ k"
    using ps by (intro truncated_within) simp
  show ?thesis
    unfolding update_defined_def
    using c s x y finite_within_is_finite [OF pc] finite_within_is_finite [OF ps]
    by (intro conjI in_int_range_abs) linarith+
qed

lemma small_body_defined:
  assumes "small_body sunX sunY p"
  shows "update_defined sunX sunY p"
proof (rule update_defined_bounds [where k = 29])
  show "finite_within (2 ^ 29) (orbitRadius p)"
    using assms by (simp add: small_body_def)
  show "is_finite (angle p)"
    using assms by (auto simp: small_body_def intro: finite_within_is_finite)
  show "\<bar>sunX\<bar> + 2 ^ 29 + \<bar>halfW p\<bar> \<le> 2147483647"
    using assms by (simp add: small_body_def)
  show "\<bar>sunY\<bar> + 2 ^ 29 + \<bar>halfH p\<bar> \<le> 2147483647"
    using assms by (simp add: small_body_def)
qed simp

lemma angle_stays_within:
  assumes "finite_within (2 ^ 100) a" "finite_within (2 ^ 46) s"
  shows "finite_within (2 ^ 100) (double_add a s)"
proof -
  from assms(1) obtain x where x: "a = Finite x" "\<bar>x\<bar> \<le> 2 ^ 100" by (rule finite_withinE)
  from assms(2) obtain y where y: "s = Finite y" "\<bar>y\<bar> \<le> 2 ^ 46" by (rule finite_withinE)
  have "\<bar>x + y\<bar> \<le> 2 ^ 100 + 2 ^ 46" using x(2) y(2) by linarith
  then have "\<bar>x + y\<bar> \<le> 2 powi 100 + 2 powi (100 - 54)" by simp
  then obtain z where "round64 (x + y) = Finite z" "\<bar>z\<bar> \<le> 2 powi 100"
    using round64_stall [of 100 "x + y"] by auto
  then show ?thesis by (simp add: x y)
qed

lemma small_body_updated:
  "small_body cx cy p \<Longrightarrow> small_body cx cy (updated sunX sunY p)"
  using angle_stays_within [of "angle p" "orbitSpeed p"]
  by (simp add: small_body_def updated_def)

lemma updates_small_body:
  "small_body sunX sunY p \<Longrightarrow> \<exists>q. updates n sunX sunY p = Some q"
proof (induction n arbitrary: p)
  case 0
  then show ?case by simp
next
  case (Suc n)
  have "updatePosition sunX sunY p = Some (updated sunX sunY p)"
    using Suc.prems by (simp add: updatePosition_eq small_body_defined)
  moreover have "small_body sunX sunY (updated sunX sunY p)"
    using Suc.prems by (rule small_body_updated)
  ultimately show ?case using Suc.IH by simp
qed

lemma updates_angle:
  "updates n sunX sunY p = Some q \<Longrightarrow>
     angle q = ((\<lambda>a. double_add a (orbitSpeed p)) ^^ n) (angle p) \<and> orbitSpeed q = orbitSpeed p"
proof (induction n arbitrary: p)
  case 0
  then show ?case by simp
next
  case (Suc n)
  from Suc.prems obtain p' where
    p': "updatePosition sunX sunY p = Some p'" and q: "updates n sunX sunY p' = Some q"
    by (auto split: option.splits)
  from p' have e: "p' = updated sunX sunY p" by (simp add: updatePosition_SomeD)
  from Suc.IH [OF q] e show ?case
    by (simp add: updated_def funpow_Suc_right del: funpow.simps)
qed

lemma planets_loop_those:
  "map_option snd (planets_loop ps) = those (map (updatePosition sunXCoordinate sunYCoordinate) ps)"
  by (induction ps) (auto split: option.splits simp: map_option_case)

lemma sun_center: "sunXCoordinate = 960" "sunYCoordinate = 540"
  by (simp_all add: sunXCoordinate_def sunYCoordinate_def sunRect_def SCREEN_WIDTH_def
      SCREEN_HEIGHT_def signed_divide_int_def)

lemma update_defined_rect [simp]:
  "update_defined cx cy (p \<lparr> rect := r \<rparr>) = update_defined cx cy p"
  by (simp add: update_defined_def)

subsection \<open>The Earth\<close>

lemma earth_fields:
  "orbitRadius earth = Finite 175" "orbitSpeed earth = Finite (5764607523034235 / 2 ^ 58)"
  "angle earth = Finite 135"
  "halfW earth = 25" "halfH earth = 25" "texture earth = Earth"
  "rect earth = \<lparr> rect_x = 0, rect_y = 0, rect_w = 50, rect_h = 50 \<rparr>"
  unfolding earth_def Planet_new_def literal_radii literal_angles literal_speed
  by (simp_all add: signed_divide_int_def)

lemma earth_small_body: "small_body sx sy earth = (\<bar>sx\<bar> \<le> 2 ^ 29 \<and> \<bar>sy\<bar> \<le> 2 ^ 29)"
  by (simp add: small_body_def earth_fields)

lemma earth_update:
  assumes "\<bar>cx\<bar> \<le> 2 ^ 29" "\<bar>cy\<bar> \<le> 2 ^ 29"
  shows "updatePosition cx cy earth
     = Some (earth \<lparr> rect := \<lparr> rect_x = cx - 199, rect_y = cy - 10, rect_w = 50, rect_h = 50 \<rparr>,
                    angle := Finite (4750593919434097 / 2 ^ 45) \<rparr>)"
proof -
  have d: "update_defined cx cy earth"
    using assms by (intro small_body_defined) (simp add: earth_small_body)
  have "updated cx cy earth
      = earth \<lparr> rect := \<lparr> rect_x = cx - 199, rect_y = cy - 10, rect_w = 50, rect_h = 50 \<rparr>,
                angle := Finite (4750593919434097 / 2 ^ 45) \<rparr>"
    unfolding updated_def earth_fields earth_truncations earth_angle_1 by simp
  with d show ?thesis by (simp add: updatePosition_eq)
qed

lemma earth_updates:
  assumes "\<bar>cx\<bar> \<le> 2 ^ 29" "\<bar>cy\<bar> \<le> 2 ^ 29"
  shows "\<exists>q. updates n cx cy earth = Some q \<and>
    angle q = ((\<lambda>a. double_add a (Finite (5764607523034235 / 2 ^ 58))) ^^ n) (Finite 135)"
proof -
  have "small_body cx cy earth"
    using assms by (simp add: earth_small_body)
  then obtain q where q: "updates n cx cy earth = Some q"
    using updates_small_body by blast
  then have "angle q = ((\<lambda>a. double_add a (Finite (5764607523034235 / 2 ^ 58))) ^^ n) (Finite 135)"
    using updates_angle [OF q] by (simp only: earth_fields)
  with q show ?thesis by blast
qed

lemma earth_angle_twice:
  "((\<lambda>a. double_add a (Finite (5764607523034235 / 2 ^ 58))) ^^ 2) (Finite 135)
     = Finite (4751297606875874 / 2 ^ 45)"
  unfolding numeral_2_eq_2 funpow.simps comp_def id_def earth_angle_1 earth_angle_2 ..



subsection \<open>The bodies of the program\<close>

lemma literal_within_one: "\<bar>v\<bar> \<le> 1 \<Longrightarrow> finite_within (2 powi 0) (literal v)"
  unfolding literal_def by (rule round64_within) simp_all

lemma literal_within_eight: "\<bar>v\<bar> \<le> 8 \<Longrightarrow> finite_within (2 powi 3) (literal v)"
  unfolding literal_def by (rule round64_within) simp_all

lemma speed_within:
  assumes "\<bar>v\<bar> \<le> 8"
  shows "finite_within (2 ^ 46) (double_mul (literal 0.02) (literal v))"
proof -
  have "finite_within (2 powi (0 + 3)) (double_mul (literal 0.02) (literal v))"
    using assms by (intro double_mul_within literal_within_one literal_within_eight) simp_all
  then show ?thesis by (rule finite_within_mono) simp
qed

lemma Planet_new_fields:
  "orbitRadius (Planet_new w h r s a t) = r" "orbitSpeed (Planet_new w h r s a t) = s"
  "angle (Planet_new w h r s a t) = a" "texture (Planet_new w h r s a t) = t"
  "halfW (Planet_new w h r s a t) = w sdiv 2" "halfH (Planet_new w h r s a t) = h sdiv 2"
  "rect (Planet_new w h r s a t) = \<lparr> rect_x = 0, rect_y = 0, rect_w = w, rect_h = h \<rparr>"
  by (simp_all add: Planet_new_def)

lemma speeds_within:
  "finite_within (2 ^ 46) (orbitSpeed mercury)" "finite_within (2 ^ 46) (orbitSpeed venus)"
  "finite_within (2 ^ 46) (orbitSpeed earth)" "finite_within (2 ^ 46) (orbitSpeed mars)"
  "finite_within (2 ^ 46) (orbitSpeed jupiter)" "finite_within (2 ^ 46) (orbitSpeed saturn)"
  "finite_within (2 ^ 46) (orbitSpeed uranus)" "finite_within (2 ^ 46) (orbitSpeed neptune)"
proof -
  show "finite_within (2 ^ 46) (orbitSpeed earth)" by (simp add: earth_fields)
qed (unfold mercury_def venus_def mars_def jupiter_def saturn_def uranus_def neptune_def
    Planet_new_fields, (rule speed_within, simp)+)

lemma planets_speeds:
  "p \<in> set planets \<Longrightarrow> finite_within (2 ^ 46) (orbitSpeed p)"
  using speeds_within by (auto simp: planets_def)

lemma planets_radii:
  "p \<in> set planets \<Longrightarrow> finite_within 550 (orbitRadius p)"
  unfolding planets_def mercury_def venus_def earth_def mars_def jupiter_def saturn_def
    uranus_def neptune_def literal_radii
  by (auto simp: Planet_new_fields)

lemma planets_angles:
  "p \<in> set planets \<Longrightarrow> finite_within 315 (angle p)"
  unfolding planets_def mercury_def venus_def earth_def mars_def jupiter_def saturn_def
    uranus_def neptune_def literal_angles
  by (auto simp: Planet_new_fields)

lemma planets_halves:
  "p \<in> set planets \<Longrightarrow> \<bar>halfW p\<bar> \<le> 40 \<and> \<bar>halfH p\<bar> \<le> 40"
  unfolding planets_def mercury_def venus_def earth_def mars_def jupiter_def saturn_def
    uranus_def neptune_def Planet_new_def
  by (auto simp: signed_divide_int_def)

lemma planets_small: "p \<in> set planets \<Longrightarrow> small_body sunXCoordinate sunYCoordinate p"
  using planets_speeds [of p] planets_halves [of p]
    finite_within_mono [OF planets_radii [of p], of "2 ^ 29"]
    finite_within_mono [OF planets_angles [of p], of "2 ^ 100"]
  by (simp add: small_body_def sun_center)

lemma planets_textures:
  "map texture planets = [Mercury, Venus, Earth, Mars, Jupiter, Saturn, Uranus, Neptune]"
  by (simp add: planets_def mercury_def venus_def earth_def mars_def
      jupiter_def saturn_def uranus_def neptune_def Planet_new_def)

subsection \<open>The draw position\<close>











subsection \<open>The Earth, end to end\<close>



lemma earth_two_updates:
  assumes "\<bar>cx\<bar> \<le> 2 ^ 29" "\<bar>cy\<bar> \<le> 2 ^ 29"
  shows "\<exists>q. updates 2 cx cy earth = Some q \<and> angle q = Finite (4751297606875874 / 2 ^ 45)"
  using earth_updates [OF assms, of 2] unfolding earth_angle_twice .




subsection \<open>The angle\<close>

lemma round64_relative_error:
  assumes "2 powi (- 1022) \<le> \<bar>v\<bar>" "\<bar>v\<bar> < 2 powi 1023"
  shows "\<exists>y. round64 v = Finite y \<and> \<bar>y - v\<bar> \<le> \<bar>v\<bar> / 2 ^ 53"
proof -
  have "(0::real) < 2 powi (- 1022)" by (rule zero_less_power_int) simp
  with assms(1) have nz: "v \<noteq> 0" by auto
  define j where "j = \<lfloor>log 2 \<bar>v\<bar>\<rfloor>"
  have b: "2 powi j \<le> \<bar>v\<bar>" "\<bar>v\<bar> < 2 powi (j + 1)"
    using floor_log2_bounds [OF nz] by (simp_all add: j_def)
  have lo: "- 1022 \<le> j"
  proof (rule ccontr)
    assume "\<not> - 1022 \<le> j"
    then have "j + 1 \<le> - 1022" by simp
    then have "(2::real) powi (j + 1) \<le> 2 powi (- 1022)"
      by (intro power_int_increasing) simp_all
    with assms(1) b(2) show False by linarith
  qed
  have hi: "j \<le> 1022"
  proof (rule ccontr)
    assume "\<not> j \<le> 1022"
    then have "1023 \<le> j" by simp
    then have "(2::real) powi 1023 \<le> 2 powi j"
      by (intro power_int_increasing) simp_all
    with assms(2) b(1) show False by linarith
  qed
  obtain y where y: "round64 v = Finite y" "\<bar>y - v\<bar> \<le> 2 powi (j - 53)"
    using round64_error [OF b lo hi] by blast
  have "(2::real) powi (j - 53) = 2 powi j / 2 ^ 53"
    by (simp add: power_int_diff)
  also have "\<dots> \<le> \<bar>v\<bar> / 2 ^ 53"
    using b(1) by (intro divide_right_mono) simp_all
  finally show ?thesis using y by auto
qed

lemma stalled_update:
  "\<exists>p'. updatePosition 0 0 (Planet_new 0 0 (Finite 1) (Finite 1) (Finite (2 ^ 53)) Earth) = Some p' \<and>
        angle p' = Finite (2 ^ 53)"
proof -
  let ?p = "Planet_new 0 0 (Finite 1) (Finite 1) (Finite (2 ^ 53)) Earth"
  have "small_body 0 0 ?p"
    by (simp add: small_body_def Planet_new_fields signed_divide_int_def)
  then have "update_defined 0 0 ?p" by (rule small_body_defined)
  moreover have "angle (updated 0 0 ?p) = Finite (2 ^ 53)"
    unfolding updated_def Planet_new_fields using stalled_angle by simp
  ultimately show ?thesis by (simp add: updatePosition_eq)
qed

text \<open>
  Claim C3, as stated, has the new angle equal to the old angle plus the speed,
  exactly, and the angle after \<open>N\<close> updates equal to the first angle plus \<open>N\<close>
  times the speed. The addition is a binary64 addition and is rounded. After two
  updates the angle of the Earth is \<open>4751297606875874 / 2 ^ 45\<close>, which is
  neither the exact sum of \<open>135\<close> and twice the stored speed nor its binary64
  value \<open>4751297606875873 / 2 ^ 45\<close>. And a body with the angle \<open>2 ^ 53\<close>
  and the speed \<open>1\<close> keeps its angle: the sum \<open>2 ^ 53 + 1\<close> is rounded back
  to \<open>2 ^ 53\<close>.
\<close>

theorem C3_angle_counterexample:
  "angle earth = Finite 135 \<and> orbitSpeed earth = Finite (5764607523034235 / 2 ^ 58) \<and>
   (\<exists>q. updates 2 sunXCoordinate sunYCoordinate earth = Some q \<and>
        angle q = Finite (4751297606875874 / 2 ^ 45)) \<and>
   (135 + 2 * (5764607523034235 / 2 ^ 58) :: real) \<noteq> 4751297606875874 / 2 ^ 45 \<and>
   double_add (angle earth) (double_mul (Finite 2) (orbitSpeed earth))
     = Finite (4751297606875873 / 2 ^ 45) \<and>
   (\<exists>p'. updatePosition 0 0 (Planet_new 0 0 (Finite 1) (Finite 1) (Finite (2 ^ 53)) Earth) = Some p' \<and>
         angle p' = Finite (2 ^ 53)) \<and>
   (2 ^ 53 :: real) \<noteq> 2 ^ 53 + 1"
proof (intro conjI)
  show "angle earth = Finite 135" "orbitSpeed earth = Finite (5764607523034235 / 2 ^ 58)"
    by (rule earth_fields)+
  show "\<exists>q. updates 2 sunXCoordinate sunYCoordinate earth = Some q \<and>
        angle q = Finite (4751297606875874 / 2 ^ 45)"
    unfolding sun_center by (rule earth_two_updates) simp_all
  show "(135 + 2 * (5764607523034235 / 2 ^ 58) :: real) \<noteq> 4751297606875874 / 2 ^ 45"
    by simp
  show "double_add (angle earth) (double_mul (Finite 2) (orbitSpeed earth))
     = Finite (4751297606875873 / 2 ^ 45)"
    unfolding earth_fields twice_speed earth_angle_direct ..
  show "\<exists>p'. updatePosition 0 0 (Planet_new 0 0 (Finite 1) (Finite 1) (Finite (2 ^ 53)) Earth) = Some p' \<and>
         angle p' = Finite (2 ^ 53)"
    by (rule stalled_update)
  show "(2 ^ 53 :: real) \<noteq> 2 ^ 53 + 1" by simp
qed

text \<open>
  Claim C3, amended. One call of \<^verbatim>\<open>updatePosition\<close> that returns leaves the
  angle at the binary64 sum of the old angle and \<^verbatim>\<open>orbitSpeed\<close>, with no
  clamping and no wrap-around, and leaves the speed as it was; after \<open>n\<close> calls
  the angle is the result of \<open>n\<close> such rounded additions. The calls do return:
  for a small body (radius, centre and half sizes of at most \<open>2 ^ 29\<close>, angle of
  at most \<open>2 ^ 100\<close>, speed of at most \<open>2 ^ 46\<close>) every one of the \<open>n\<close>
  calls is defined. The rounded sum of two finite values \<open>a\<close> and \<open>s\<close> is
  within \<open>\<bar>a + s\<bar> / 2 ^ 53\<close> of \<open>a + s\<close> when \<open>a + s\<close> is in the
  normal range, and it is \<open>a + s\<close> itself when \<open>a + s\<close> is of the form
  \<open>m * 2 ^ k\<close> with \<open>\<bar>m\<bar> < 2 ^ 53\<close>.
\<close>

theorem C3_angle_advances_by_speed:
  "(updatePosition sunX sunY p = Some p' \<longrightarrow>
      angle p' = double_add (angle p) (orbitSpeed p) \<and> orbitSpeed p' = orbitSpeed p) \<and>
   (updates n sunX sunY p = Some q \<longrightarrow>
      angle q = ((\<lambda>a. double_add a (orbitSpeed p)) ^^ n) (angle p)) \<and>
   (small_body sunX sunY p \<longrightarrow> (\<exists>q. updates n sunX sunY p = Some q)) \<and>
   (2 powi (- 1022) \<le> \<bar>a + s\<bar> \<and> \<bar>a + s\<bar> < 2 powi 1023 \<longrightarrow>
      (\<exists>y. double_add (Finite a) (Finite s) = Finite y \<and> \<bar>y - (a + s)\<bar> \<le> \<bar>a + s\<bar> / 2 ^ 53)) \<and>
   (\<bar>m\<bar> < 2 ^ 53 \<and> - 1074 \<le> k \<and> k \<le> 970 \<and> a + s = real_of_int m * 2 powi k \<longrightarrow>
      double_add (Finite a) (Finite s) = Finite (a + s))"
proof (intro conjI impI)
  assume "updatePosition sunX sunY p = Some p'"
  then have e: "p' = updated sunX sunY p" by (simp add: updatePosition_SomeD)
  show "angle p' = double_add (angle p) (orbitSpeed p)" by (simp add: e updated_def)
  show "orbitSpeed p' = orbitSpeed p" by (simp add: e updated_def)
next
  assume "updates n sunX sunY p = Some q"
  then show "angle q = ((\<lambda>a. double_add a (orbitSpeed p)) ^^ n) (angle p)"
    by (simp add: updates_angle)
next
  assume "small_body sunX sunY p"
  then show "\<exists>q. updates n sunX sunY p = Some q" by (rule updates_small_body)
next
  assume "2 powi (- 1022) \<le> \<bar>a + s\<bar> \<and> \<bar>a + s\<bar> < 2 powi 1023"
  then show "\<exists>y. double_add (Finite a) (Finite s) = Finite y \<and> \<bar>y - (a + s)\<bar> \<le> \<bar>a + s\<bar> / 2 ^ 53"
    unfolding double_add.simps by (intro round64_relative_error) simp_all
next
  assume h: "\<bar>m\<bar> < 2 ^ 53 \<and> - 1074 \<le> k \<and> k \<le> 970 \<and> a + s = real_of_int m * 2 powi k"
  then have "round64 (real_of_int m * 2 powi k) = Finite (real_of_int m * 2 powi k)"
    by (intro round64_representable) simp_all
  with h show "double_add (Finite a) (Finite s) = Finite (a + s)" by simp
qed

theorem C3_angle_advances_by_speed_witness:
  "small_body sunXCoordinate sunYCoordinate earth \<and>
   (\<exists>q. updates 2 sunXCoordinate sunYCoordinate earth = Some q \<and>
        angle q = Finite (4751297606875874 / 2 ^ 45)) \<and>
   (\<bar>135 :: int\<bar> < 2 ^ 53 \<and> (- 1074 :: int) \<le> 0 \<and> (0 :: int) \<le> 970 \<and>
    (100 + 35 :: real) = real_of_int 135 * 2 powi 0) \<and>
   double_add (Finite 100) (Finite 35) = Finite (100 + 35)"
proof -
  have sb: "small_body sunXCoordinate sunYCoordinate earth"
    by (simp add: earth_small_body sun_center)
  then obtain q where q: "updates 2 sunXCoordinate sunYCoordinate earth = Some q"
    using C3_angle_advances_by_speed [of sunXCoordinate sunYCoordinate earth undefined 2 undefined]
    by blast
  then have "angle q = ((\<lambda>a. double_add a (orbitSpeed earth)) ^^ 2) (angle earth)"
    using C3_angle_advances_by_speed [of sunXCoordinate sunYCoordinate earth undefined 2 q]
    by blast
  then have a: "angle q = Finite (4751297606875874 / 2 ^ 45)"
    unfolding earth_fields earth_angle_twice .
  have h: "\<bar>135 :: int\<bar> < 2 ^ 53 \<and> (- 1074 :: int) \<le> 0 \<and> (0 :: int) \<le> 970 \<and>
    (100 + 35 :: real) = real_of_int 135 * 2 powi 0"
    by simp
  then have "double_add (Finite 100) (Finite 35) = Finite (100 + 35)"
    using C3_angle_advances_by_speed [where a = 100 and s = 35 and m = 135 and k = 0]
    by blast
  with sb q a h show ?thesis by blast
qed

subsection \<open>What a run leaves unchanged\<close>

lemma same_refl: "same_but_position_and_angle p p"
  by (simp add: same_but_position_and_angle_def)

lemma same_updated: "same_but_position_and_angle p (updated sunX sunY p)"
  by (simp add: same_but_position_and_angle_def updated_def)

lemma same_trans:
  assumes "same_but_position_and_angle p q" "same_but_position_and_angle q r"
  shows "same_but_position_and_angle p r"
proof -
  from assms(1) obtain x y a where q: "q = p \<lparr> rect := (rect p) \<lparr> rect_x := x, rect_y := y \<rparr>, angle := a \<rparr>"
    unfolding same_but_position_and_angle_def by blast
  from assms(2) obtain x' y' a' where r: "r = q \<lparr> rect := (rect q) \<lparr> rect_x := x', rect_y := y' \<rparr>, angle := a' \<rparr>"
    unfolding same_but_position_and_angle_def by blast
  show ?thesis
    unfolding same_but_position_and_angle_def by (simp add: q r)
qed

lemma run_ops_frame:
  "run_ops ops p = Some (cs, q) \<Longrightarrow> same_but_position_and_angle p q"
proof (induction ops p arbitrary: cs q rule: run_ops.induct)
  case (1 p)
  then show ?case by (simp add: same_refl)
next
  case (2 sunX sunY ops p)
  from "2.prems" obtain p' where
    p': "updatePosition sunX sunY p = Some p'" and r: "run_ops ops p' = Some (cs, q)"
    by (auto split: option.splits)
  from p' have e: "p' = updated sunX sunY p" by (simp add: updatePosition_SomeD)
  have "same_but_position_and_angle p p'" unfolding e by (rule same_updated)
  moreover have "same_but_position_and_angle p' q" using "2.IH" [OF p' r] .
  ultimately show ?case by (rule same_trans)
next
  case (3 ops p)
  from "3.prems" obtain cs' where "run_ops ops p = Some (cs', q)"
    by (auto split: option.splits)
  then show ?case by (rule "3.IH")
qed

lemma small_ops_updated: "small_ops ops p \<Longrightarrow> small_ops ops (updated sunX sunY p)"
  by (induction ops p rule: small_ops.induct) (simp_all add: small_body_updated)

lemma run_ops_small: "small_ops ops p \<Longrightarrow> \<exists>cs q. run_ops ops p = Some (cs, q)"
proof (induction ops p rule: run_ops.induct)
  case (1 p)
  then show ?case by simp
next
  case (2 sunX sunY ops p)
  then have u: "updatePosition sunX sunY p = Some (updated sunX sunY p)"
    by (simp add: updatePosition_eq small_body_defined)
  have "small_ops ops (updated sunX sunY p)"
    using "2.prems" by (simp add: small_ops_updated)
  then have "\<exists>cs q. run_ops ops (updated sunX sunY p) = Some (cs, q)"
    by (rule "2.IH" [OF u])
  then show ?case by (simp add: u)
next
  case (3 ops p)
  then obtain cs q where "run_ops ops p = Some (cs, q)" by auto
  then show ?case by simp
qed

text \<open>
  Claim C4, as stated, has the angle as the only attribute that changes. The
  struct also holds the draw position, and \<^verbatim>\<open>updatePosition\<close> writes it: after
  the first update of the Earth \<^verbatim>\<open>rect\<close> is no longer the \<^verbatim>\<open>rect\<close> of
  the constructor (\<^verbatim>\<open>rect.x\<close> is 761, it was 0).
\<close>

theorem C4_position_changes_counterexample:
  "map_option rect (updatePosition sunXCoordinate sunYCoordinate earth) \<noteq> Some (rect earth)"
  unfolding sun_center by (subst earth_update) (simp_all add: earth_fields)

text \<open>
  Claim C4, amended. For every body and every sequence of \<^verbatim>\<open>updatePosition\<close>
  and \<^verbatim>\<open>render\<close> calls that runs to its end, \<^verbatim>\<open>orbitRadius\<close> and
  \<^verbatim>\<open>orbitSpeed\<close> are what they were at the start, and so are the texture, the
  half sizes and the size of \<^verbatim>\<open>rect\<close>: of the attributes of the body only
  the angle and the draw position \<^verbatim>\<open>rect.x\<close>, \<^verbatim>\<open>rect.y\<close> change. Every
  sequence on a small body (radius, centres and half sizes of at most \<open>2 ^ 29\<close>,
  angle of at most \<open>2 ^ 100\<close>, speed of at most \<open>2 ^ 46\<close>) does run to its
  end.
\<close>

theorem C4_orbit_constants_unchanged:
  "(run_ops ops p = Some (cs, q) \<longrightarrow>
      orbitRadius q = orbitRadius p \<and> orbitSpeed q = orbitSpeed p \<and>
      texture q = texture p \<and> halfW q = halfW p \<and> halfH q = halfH p \<and>
      rect_w (rect q) = rect_w (rect p) \<and> rect_h (rect q) = rect_h (rect p) \<and>
      q = p \<lparr> rect := (rect p) \<lparr> rect_x := rect_x (rect q), rect_y := rect_y (rect q) \<rparr>,
              angle := angle q \<rparr>) \<and>
   (small_ops ops p \<longrightarrow> (\<exists>cs q. run_ops ops p = Some (cs, q)))"
proof (intro conjI impI)
  assume run: "run_ops ops p = Some (cs, q)"
  have e: "q = p \<lparr> rect := (rect p) \<lparr> rect_x := rect_x (rect q), rect_y := rect_y (rect q) \<rparr>,
                 angle := angle q \<rparr>"
    using run_ops_frame [OF run] by (simp add: same_but_position_and_angle_def)
  show "orbitRadius q = orbitRadius p" by (subst e) simp
  show "orbitSpeed q = orbitSpeed p" by (subst e) simp
  show "texture q = texture p" by (subst e) simp
  show "halfW q = halfW p" by (subst e) simp
  show "halfH q = halfH p" by (subst e) simp
  show "rect_w (rect q) = rect_w (rect p)" by (subst e) simp
  show "rect_h (rect q) = rect_h (rect p)" by (subst e) simp
  show "q = p \<lparr> rect := (rect p) \<lparr> rect_x := rect_x (rect q), rect_y := rect_y (rect q) \<rparr>,
                 angle := angle q \<rparr>"
    by (rule e)
next
  assume "small_ops ops p"
  then show "\<exists>cs q. run_ops ops p = Some (cs, q)" by (rule run_ops_small)
qed


theorem C4_orbit_constants_unchanged_witness:
  "small_ops [Call_updatePosition 960 540, Call_render] earth \<and>
   run_ops [Call_updatePosition 960 540, Call_render] earth
     = Some ([SDL_RenderCopy Earth \<lparr> rect_x = 761, rect_y = 530, rect_w = 50, rect_h = 50 \<rparr>],
             updated 960 540 earth) \<and>
   orbitRadius (updated 960 540 earth) = Finite 175 \<and>
   orbitSpeed (updated 960 540 earth) = Finite (5764607523034235 / 2 ^ 58)"
proof -
  have sb: "small_body 960 540 earth"
    by (simp add: earth_small_body)
  then have so: "small_ops [Call_updatePosition 960 540, Call_render] earth"
    by simp
  have d: "update_defined 960 540 earth"
    using sb by (rule small_body_defined)
  have "updatePosition 960 540 earth
     = Some (earth \<lparr> rect := \<lparr> rect_x = 960 - 199, rect_y = 540 - 10, rect_w = 50, rect_h = 50 \<rparr>,
                    angle := Finite (4750593919434097 / 2 ^ 45) \<rparr>)"
    by (rule earth_update) simp_all
  then have u: "updated 960 540 earth
     = earth \<lparr> rect := \<lparr> rect_x = 960 - 199, rect_y = 540 - 10, rect_w = 50, rect_h = 50 \<rparr>,
               angle := Finite (4750593919434097 / 2 ^ 45) \<rparr>"
    by (simp add: updatePosition_eq d)
  have r: "rect (updated 960 540 earth) = \<lparr> rect_x = 761, rect_y = 530, rect_w = 50, rect_h = 50 \<rparr>"
    unfolding u by simp
  have tx: "texture (updated 960 540 earth) = Earth"
    unfolding u by (simp add: earth_fields)
  have run: "run_ops [Call_updatePosition 960 540, Call_render] earth
     = Some ([SDL_RenderCopy Earth \<lparr> rect_x = 761, rect_y = 530, rect_w = 50, rect_h = 50 \<rparr>],
             updated 960 540 earth)"
    by (simp only: run_ops.simps updatePosition_eq d if_True option.case prod.case render_def r tx)
  have "orbitRadius (updated 960 540 earth) = orbitRadius earth \<and>
        orbitSpeed (updated 960 540 earth) = orbitSpeed earth"
    using C4_orbit_constants_unchanged [where ops = "[Call_updatePosition 960 540, Call_render]"
        and p = earth and q = "updated 960 540 earth"] run
    by blast
  then have "orbitRadius (updated 960 540 earth) = Finite 175 \<and>
      orbitSpeed (updated 960 540 earth) = Finite (5764607523034235 / 2 ^ 58)"
    by (simp only: earth_fields)
  with run so show ?thesis by blast
qed

subsection \<open>The order of the updates\<close>

lemma those_updatePosition:
  "those (map (updatePosition sunX sunY) ps)
     = (if \<forall>p \<in> set ps. update_defined sunX sunY p then Some (map (updated sunX sunY) ps) else None)"
  by (induction ps) (simp_all add: updatePosition_eq)

lemma update_in_order_char:
  assumes "distinct order" "set order \<subseteq> {..<length ps}"
  shows "update_in_order order ps
     = (if \<forall>i \<in> set order. update_defined sunXCoordinate sunYCoordinate (ps ! i)
        then Some (map (\<lambda>i. if i \<in> set order
                              then updated sunXCoordinate sunYCoordinate (ps ! i) else ps ! i)
                       [0..<length ps])
        else None)"
  using assms
proof (induction order arbitrary: ps)
  case Nil
  then show ?case by (simp add: map_nth)
next
  case (Cons i order)
  let ?u = "updated sunXCoordinate sunYCoordinate"
  let ?d = "update_defined sunXCoordinate sunYCoordinate"
  let ?ps = "ps [i := ?u (ps ! i)]"
  from Cons.prems have i: "i < length ps" and ni: "i \<notin> set order"
    and d: "distinct order" and sub: "set order \<subseteq> {..<length ?ps}"
    by auto
  have other: "?ps ! j = ps ! j" if "j \<in> set order" for j
  proof -
    from that ni have "i \<noteq> j" by blast
    then show ?thesis by (rule nth_list_update_neq)
  qed
  show ?case
  proof (cases "?d (ps ! i)")
    case False
    then show ?thesis using i by (simp add: updatePosition_eq)
  next
    case True
    have "update_in_order (i # order) ps = update_in_order order ?ps"
      using True i by (simp add: updatePosition_eq)
    also have "\<dots> = (if \<forall>j \<in> set order. ?d (?ps ! j)
        then Some (map (\<lambda>j. if j \<in> set order then ?u (?ps ! j) else ?ps ! j) [0..<length ?ps])
        else None)"
      using d sub by (rule Cons.IH)
    also have "(\<forall>j \<in> set order. ?d (?ps ! j)) = (\<forall>j \<in> set (i # order). ?d (ps ! j))"
      using True other by auto
    also have "map (\<lambda>j. if j \<in> set order then ?u (?ps ! j) else ?ps ! j) [0..<length ?ps]
        = map (\<lambda>j. if j \<in> set (i # order) then ?u (ps ! j) else ps ! j) [0..<length ps]"
    proof (rule map_cong)
      show "[0..<length ?ps] = [0..<length ps]" by simp
    next
      fix j assume "j \<in> set [0..<length ps]"
      then have j: "j < length ps" by simp
      show "(if j \<in> set order then ?u (?ps ! j) else ?ps ! j)
          = (if j \<in> set (i # order) then ?u (ps ! j) else ps ! j)"
      proof (cases "j = i")
        case True
        then show ?thesis using ni i by simp
      next
        case False
        then have "?ps ! j = ps ! j" by simp
        then show ?thesis using False by simp
      qed
    qed
    finally show ?thesis .
  qed
qed

lemma update_in_order_those:
  assumes "distinct order" "set order = {..<length ps}"
  shows "update_in_order order ps = those (map (updatePosition sunXCoordinate sunYCoordinate) ps)"
proof -
  let ?u = "updated sunXCoordinate sunYCoordinate"
  let ?d = "update_defined sunXCoordinate sunYCoordinate"
  have sub: "set order \<subseteq> {..<length ps}" using assms(2) by simp
  have a: "(\<forall>i \<in> set order. ?d (ps ! i)) = (\<forall>p \<in> set ps. ?d p)"
    unfolding assms(2) by (auto simp: all_set_conv_all_nth)
  have "map (\<lambda>i. if i \<in> set order then ?u (ps ! i) else ps ! i) [0..<length ps]
      = map (\<lambda>i. ?u (ps ! i)) [0..<length ps]"
    unfolding assms(2) by simp
  also have "\<dots> = map ?u (map ((!) ps) [0..<length ps])" by simp
  also have "\<dots> = map ?u ps" by (simp only: map_nth)
  finally have b: "map (\<lambda>i. if i \<in> set order then ?u (ps ! i) else ps ! i) [0..<length ps]
      = map ?u ps" .
  show ?thesis
    unfolding update_in_order_char [OF assms(1) sub] those_updatePosition a b ..
qed

text \<open>
  Claim C6. The update of a body is a function of that body and the centre of the
  sun alone, so the order of the updates does not matter: visiting the indices of
  the array in any order, each once, gives the array that the loop of the program
  gives in array order (and no defined result exactly when the loop has none),
  which holds for each body the update of its own old state.
\<close>

theorem C6_update_order_independent:
  assumes "distinct order" "set order = {..<length ps}"
  shows "update_in_order order ps = map_option snd (planets_loop ps) \<and>
         update_in_order order ps = those (map (updatePosition sunXCoordinate sunYCoordinate) ps)"
  using update_in_order_those [OF assms] by (simp add: planets_loop_those)

theorem C6_update_order_independent_witness:
  "distinct [7, 6, 5, 4, 3, 2, 1, 0 :: nat] \<and>
   set [7, 6, 5, 4, 3, 2, 1, 0 :: nat] = {..<length planets} \<and>
   update_in_order [7, 6, 5, 4, 3, 2, 1, 0] planets = map_option snd (planets_loop planets)"
proof -
  have d: "distinct [7, 6, 5, 4, 3, 2, 1, 0 :: nat]" by simp
  have l: "length planets = 8" by (simp add: planets_def)
  have s: "set [7, 6, 5, 4, 3, 2, 1, 0 :: nat] = {..<length planets}"
    unfolding l by auto
  from C6_update_order_independent [OF d s] d s show ?thesis by blast
qed

subsection \<open>The main loop on the bodies of the program\<close>

lemma planets_loop_small:
  assumes "\<forall>p \<in> set ps. small_body sunXCoordinate sunYCoordinate p"
  shows "planets_loop ps = Some (map (\<lambda>p. render (updated sunXCoordinate sunYCoordinate p)) ps, map (updated sunXCoordinate sunYCoordinate) ps)"
  using assms by (induction ps) (simp_all add: updatePosition_eq small_body_defined)

lemma frame_small:
  assumes "\<forall>p \<in> set ps. small_body sunXCoordinate sunYCoordinate p"
  shows "frame ps =
     Some ([SDL_RenderClear, SDL_RenderCopy Stars backgroundRect, SDL_RenderCopy Sun sunRect]
           @ map (\<lambda>p. render (updated sunXCoordinate sunYCoordinate p)) ps @ [SDL_RenderPresent, SDL_Delay 16],
           map (updated sunXCoordinate sunYCoordinate) ps)"
  by (simp add: frame_def planets_loop_small [OF assms])

lemma small_after_frame:
  assumes "\<forall>p \<in> set ps. small_body sunXCoordinate sunYCoordinate p"
  shows "\<forall>p \<in> set (map (updated sunXCoordinate sunYCoordinate) ps). small_body sunXCoordinate sunYCoordinate p"
  using assms by (simp add: small_body_updated)

lemma texture_updated: "texture (updated sunX sunY p) = texture p"
  by (simp add: updated_def)

lemma draw_ops_append: "draw_ops (xs @ ys) = draw_ops xs @ draw_ops ys"
  by (induction xs rule: draw_ops.induct) simp_all

lemma draw_ops_renders:
  "draw_ops (map (\<lambda>p. render (updated sunX sunY p)) ps) = map (\<lambda>p. Draw (texture p)) ps"
  by (induction ps) (simp_all add: render_def texture_updated)

lemma draw_ops_frame:
  "draw_ops ([SDL_RenderClear, SDL_RenderCopy Stars backgroundRect, SDL_RenderCopy Sun sunRect]
           @ map (\<lambda>p. render (updated sunXCoordinate sunYCoordinate p)) ps @ [SDL_RenderPresent, SDL_Delay 16])
   = [Clear, Draw Stars, Draw Sun] @ map Draw (map texture ps) @ [Present]"
  by (simp add: draw_ops_append draw_ops_renders comp_def)

lemma handle_event_quit: "handle_event running e = (running \<and> \<not> quit_event e)"
  by (cases e) (auto simp: handle_event_def quit_event_def)

lemma poll_events_quit: "poll_events running es = (running \<and> \<not> (\<exists>e \<in> set es. quit_event e))"
  by (induction es arbitrary: running) (auto simp: handle_event_quit)

lemma main_loop_status:
  assumes "\<forall>p \<in> set ps. small_body sunXCoordinate sunYCoordinate p"
  shows "snd (snd (main_loop ps ess))
     = (if \<exists>es \<in> set ess. \<exists>e \<in> set es. quit_event e then Finished else Running)"
  using assms
proof (induction ess arbitrary: ps)
  case Nil
  then show ?case by simp
next
  case (Cons es ess)
  note f = frame_small [OF Cons.prems]
  show ?case
  proof (cases "poll_events True es")
    case True
    then have nq: "\<not> (\<exists>e \<in> set es. quit_event e)" by (simp add: poll_events_quit)
    have "snd (snd (main_loop ps (es # ess))) = snd (snd (main_loop (map (updated sunXCoordinate sunYCoordinate) ps) ess))"
      using True f by (simp add: split_beta)
    also have "\<dots> = (if \<exists>es \<in> set ess. \<exists>e \<in> set es. quit_event e then Finished else Running)"
      by (rule Cons.IH) (rule small_after_frame [OF Cons.prems])
    finally show ?thesis using nq by simp
  next
    case False
    then have q: "\<exists>e \<in> set es. quit_event e" by (simp add: poll_events_quit)
    have "snd (snd (main_loop ps (es # ess))) = Finished"
      using False f by simp
    then show ?thesis using q by simp
  qed
qed

lemma main_loop_frames:
  assumes "\<forall>p \<in> set ps. small_body sunXCoordinate sunYCoordinate p"
    and "map texture ps = [Mercury, Venus, Earth, Mars, Jupiter, Saturn, Uranus, Neptune]"
  shows "\<exists>fs. fst (main_loop ps ess) = concat fs \<and> length fs = iterations ess \<and>
              list_all (\<lambda>f. draw_ops f = frame_draw_order) fs"
  using assms
proof (induction ess arbitrary: ps)
  case Nil
  have "fst (main_loop ps []) = concat [] \<and> length ([] :: sdl_call list list) = iterations [] \<and>
              list_all (\<lambda>f. draw_ops f = frame_draw_order) []"
    by simp
  then show ?case by blast
next
  case (Cons es ess)
  let ?cs = "[SDL_RenderClear, SDL_RenderCopy Stars backgroundRect, SDL_RenderCopy Sun sunRect]
           @ map (\<lambda>p. render (updated sunXCoordinate sunYCoordinate p)) ps @ [SDL_RenderPresent, SDL_Delay 16]"
  let ?ps = "map (updated sunXCoordinate sunYCoordinate) ps"
  have f: "frame ps = Some (?cs, ?ps)" by (rule frame_small) (rule Cons.prems(1))
  have d: "draw_ops ?cs = frame_draw_order"
    unfolding draw_ops_frame Cons.prems(2) by (simp add: frame_draw_order_def)
  show ?case
  proof (cases "poll_events True es")
    case True
    have s: "\<forall>p \<in> set ?ps. small_body sunXCoordinate sunYCoordinate p" by (rule small_after_frame) (rule Cons.prems(1))
    have t: "map texture ?ps = [Mercury, Venus, Earth, Mars, Jupiter, Saturn, Uranus, Neptune]"
      using Cons.prems(2) by (simp add: comp_def texture_updated)
    from Cons.IH [OF s t] obtain fs where
      fs: "fst (main_loop ?ps ess) = concat fs" "length fs = iterations ess"
        "list_all (\<lambda>f. draw_ops f = frame_draw_order) fs"
      by blast
    have "fst (main_loop ps (es # ess)) = ?cs @ fst (main_loop ?ps ess)"
      using True f by (simp add: split_beta)
    then have "fst (main_loop ps (es # ess)) = concat (?cs # fs) \<and>
        length (?cs # fs) = iterations (es # ess) \<and>
        list_all (\<lambda>f. draw_ops f = frame_draw_order) (?cs # fs)"
      using fs d True by simp
    then show ?thesis by blast
  next
    case False
    have "fst (main_loop ps (es # ess)) = ?cs"
      using False f by simp
    then have "fst (main_loop ps (es # ess)) = concat [?cs] \<and>
        length [?cs] = iterations (es # ess) \<and>
        list_all (\<lambda>f. draw_ops f = frame_draw_order) [?cs]"
      using d False by simp
    then show ?thesis by blast
  qed
qed

text \<open>
  Claim C9. For the eight bodies that \<open>main\<close> constructs (orbit radii of at most
  550) the position update has no failing branch, whatever finite angle a body has
  reached: the binary64 products \<open>r * cos a\<close> and \<open>r * sin a\<close> are finite,
  their conversions to \<^verbatim>\<open>int\<close> are in range and the update against the centre
  of the sun is defined. In the loop the angles stay finite. So the loop never
  reaches an undefined update, on any events, and neither does \<open>main\<close>.
\<close>

theorem C9_updates_always_defined:
  "(\<forall>p \<in> set planets. finite_within 550 (orbitRadius p) \<and>
      (\<forall>a. is_finite (double_mul (orbitRadius p) (double_cos (Finite a))) \<and>
           in_int_range (truncated (double_mul (orbitRadius p) (double_cos (Finite a)))) \<and>
           is_finite (double_mul (orbitRadius p) (double_sin (Finite a))) \<and>
           in_int_range (truncated (double_mul (orbitRadius p) (double_sin (Finite a)))) \<and>
           updatePosition sunXCoordinate sunYCoordinate (p \<lparr> angle := Finite a \<rparr>) \<noteq> None)) \<and>
   snd (snd (main_loop planets ess)) \<noteq> Undefined \<and>
   snd (main env) \<noteq> Undefined_behaviour"
proof (intro conjI ballI allI)
  fix p a assume p: "p \<in> set planets"
  show r: "finite_within 550 (orbitRadius p)"
    using p by (rule planets_radii)
  have "update_defined sunXCoordinate sunYCoordinate (p \<lparr> angle := Finite a \<rparr>)"
  proof (rule update_defined_bounds [where k = 10])
    show "finite_within (2 ^ 10) (orbitRadius (p \<lparr> angle := Finite a \<rparr>))"
      using finite_within_mono [OF r, of "2 ^ 10"] by simp
    show "is_finite (angle (p \<lparr> angle := Finite a \<rparr>))" by simp
    show "\<bar>sunXCoordinate\<bar> + 2 ^ 10 + \<bar>halfW (p \<lparr> angle := Finite a \<rparr>)\<bar> \<le> 2147483647"
      using planets_halves [OF p] by (simp add: sun_center)
    show "\<bar>sunYCoordinate\<bar> + 2 ^ 10 + \<bar>halfH (p \<lparr> angle := Finite a \<rparr>)\<bar> \<le> 2147483647"
      using planets_halves [OF p] by (simp add: sun_center)
  qed simp
  then have d: "update_defined sunXCoordinate sunYCoordinate (p \<lparr> angle := Finite a \<rparr>)" .
  then show "is_finite (double_mul (orbitRadius p) (double_cos (Finite a)))"
    and "in_int_range (truncated (double_mul (orbitRadius p) (double_cos (Finite a))))"
    and "is_finite (double_mul (orbitRadius p) (double_sin (Finite a)))"
    and "in_int_range (truncated (double_mul (orbitRadius p) (double_sin (Finite a))))"
    by (simp_all add: update_defined_def)
  from d show "updatePosition sunXCoordinate sunYCoordinate (p \<lparr> angle := Finite a \<rparr>) \<noteq> None"
    by (simp add: updatePosition_eq)
next
  have st: "snd (snd (main_loop planets ess))
     = (if \<exists>es \<in> set ess. \<exists>e \<in> set es. quit_event e then Finished else Running)" for ess
    by (rule main_loop_status) (simp add: planets_small)
  show "snd (snd (main_loop planets ess)) \<noteq> Undefined"
    unfolding st by simp
  have "snd (snd (main_loop planets (event_batches env))) \<noteq> Undefined"
    unfolding st by simp
  then show "snd (main env) \<noteq> Undefined_behaviour"
    by (cases "main_loop planets (event_batches env)")
       (auto simp: main_def split: loop_status.splits)
qed

theorem C9_updates_always_defined_witness:
  "earth \<in> set planets \<and>
   updatePosition sunXCoordinate sunYCoordinate (earth \<lparr> angle := Finite 1000000 \<rparr>) \<noteq> None"
proof -
  have e: "earth \<in> set planets" by (simp add: planets_def)
  with C9_updates_always_defined [of "[]" undefined] show ?thesis by blast
qed

subsection \<open>The draw order\<close>

text \<open>
  Claim C7. The calls of the main loop fall into one group for each iteration, and
  the draw operations of every group are, in this order: the clear of the frame,
  the background, the sun, the eight planets in array order (Mercury, Venus,
  Earth, Mars, Jupiter, Saturn, Uranus, Neptune), and the presentation of the
  frame.
\<close>

theorem C7_draw_order:
  "\<exists>fs. fst (main_loop planets ess) = concat fs \<and> length fs = iterations ess \<and>
         list_all (\<lambda>f. draw_ops f = frame_draw_order) fs"
  by (rule main_loop_frames) (simp_all add: planets_small planets_textures)

subsection \<open>The end of the loop\<close>

lemma main_loop_stops:
  assumes "\<not> poll_events True es"
  shows "main_loop ps (ess @ es # rest) = main_loop ps (ess @ [es])"
proof (induction ess arbitrary: ps)
  case Nil
  show ?case using assms by (simp split: option.splits)
next
  case (Cons a ess)
  show ?case by (simp add: Cons.IH split: option.splits)
qed

text \<open>
  Claim C8. A quit event and a key-down event of the escape key set
  \<^verbatim>\<open>running\<close> to false, every other event leaves it as it is, and no event
  sets it back to true. So a round of polling leaves \<^verbatim>\<open>running\<close> true exactly
  when none of its events is one of the two, the main loop ends exactly when one
  of the batches holds one of the two and else goes on, and the batches after the
  first one that holds one are never read.
\<close>

theorem C8_loop_ends_on_quit_or_escape:
  "handle_event True e = (\<not> (e = SDL_QUIT \<or> e = SDL_KEYDOWN SDLK_ESCAPE)) \<and>
   handle_event False e = False \<and>
   poll_events True es = (\<not> (\<exists>e \<in> set es. quit_event e)) \<and>
   snd (snd (main_loop planets ess))
     = (if \<exists>es \<in> set ess. \<exists>e \<in> set es. quit_event e then Finished else Running) \<and>
   ((\<exists>e \<in> set es. quit_event e) \<longrightarrow>
      main_loop planets (ess @ es # rest) = main_loop planets (ess @ [es]))"
proof (intro conjI impI)
  show "handle_event True e = (\<not> (e = SDL_QUIT \<or> e = SDL_KEYDOWN SDLK_ESCAPE))"
    by (simp add: handle_event_quit quit_event_def)
  show "handle_event False e = False"
    by (simp add: handle_event_quit)
  show "poll_events True es = (\<not> (\<exists>e \<in> set es. quit_event e))"
    by (simp add: poll_events_quit)
  show "snd (snd (main_loop planets ess))
     = (if \<exists>es \<in> set ess. \<exists>e \<in> set es. quit_event e then Finished else Running)"
    by (rule main_loop_status) (simp add: planets_small)
next
  assume "\<exists>e \<in> set es. quit_event e"
  then have "\<not> poll_events True es" by (simp add: poll_events_quit)
  then show "main_loop planets (ess @ es # rest) = main_loop planets (ess @ [es])"
    by (rule main_loop_stops)
qed

theorem C8_loop_ends_on_quit_or_escape_witness:
  "(\<exists>e \<in> set [SDL_other_event 1024, SDL_KEYDOWN SDLK_ESCAPE]. quit_event e) \<and>
   snd (snd (main_loop planets [[SDL_KEYDOWN (SDLK_other 97)],
                                [SDL_other_event 1024, SDL_KEYDOWN SDLK_ESCAPE], []])) = Finished \<and>
   main_loop planets [[SDL_KEYDOWN (SDLK_other 97)],
                      [SDL_other_event 1024, SDL_KEYDOWN SDLK_ESCAPE], []]
     = main_loop planets [[SDL_KEYDOWN (SDLK_other 97)],
                          [SDL_other_event 1024, SDL_KEYDOWN SDLK_ESCAPE]]"
proof -
  have q: "\<exists>e \<in> set [SDL_other_event 1024, SDL_KEYDOWN SDLK_ESCAPE]. quit_event e"
    by (simp add: quit_event_def)
  note th = C8_loop_ends_on_quit_or_escape [where es = "[SDL_other_event 1024, SDL_KEYDOWN SDLK_ESCAPE]"
      and ess = "[[SDL_KEYDOWN (SDLK_other 97)]]" and rest = "[[]]"]
  from th q have "main_loop planets ([[SDL_KEYDOWN (SDLK_other 97)]]
        @ [SDL_other_event 1024, SDL_KEYDOWN SDLK_ESCAPE] # [[]])
     = main_loop planets ([[SDL_KEYDOWN (SDLK_other 97)]]
        @ [[SDL_other_event 1024, SDL_KEYDOWN SDLK_ESCAPE]])"
    by blast
  then have a: "main_loop planets [[SDL_KEYDOWN (SDLK_other 97)],
                      [SDL_other_event 1024, SDL_KEYDOWN SDLK_ESCAPE], []]
     = main_loop planets [[SDL_KEYDOWN (SDLK_other 97)],
                          [SDL_other_event 1024, SDL_KEYDOWN SDLK_ESCAPE]]"
    by simp
  let ?ess = "[[SDL_KEYDOWN (SDLK_other 97)],
               [SDL_other_event 1024, SDL_KEYDOWN SDLK_ESCAPE], []]"
  have c: "\<exists>es \<in> set ?ess. \<exists>e \<in> set es. quit_event e"
    by (simp add: quit_event_def)
  have "snd (snd (main_loop planets ?ess))
     = (if \<exists>es \<in> set ?ess. \<exists>e \<in> set es. quit_event e then Finished else Running)"
    using C8_loop_ends_on_quit_or_escape [where ess = ?ess] by blast
  then have b: "snd (snd (main_loop planets ?ess)) = Finished"
    by (simp only: c if_True)
  from q a b show ?thesis by blast
qed

subsection \<open>A missing image\<close>

lemma main_asset_failure:
  assumes "sdl_init_ok env" "\<not> texture_created env a"
  shows "main env
     = (startup_calls @ [Cerr (''Failed to create texture: '' @ sdl_error env @ endl)], Exit (- 1))"
proof -
  have "\<not> texture_created env Stars \<or> \<not> texture_created env Sun
            \<or> \<not> texture_created env Mercury \<or> \<not> texture_created env Venus
            \<or> \<not> texture_created env Earth \<or> \<not> texture_created env Mars
            \<or> \<not> texture_created env Jupiter \<or> \<not> texture_created env Saturn
            \<or> \<not> texture_created env Uranus \<or> \<not> texture_created env Neptune"
    using assms(2) by (cases a) blast+
  then show ?thesis
    unfolding main_def using assms(1) by (simp only: if_True if_False not_True_eq_False simp_thms)
qed

lemma main_init_failure:
  assumes "\<not> sdl_init_ok env"
  shows "main env
     = ([SDL_Init, Cerr (''SDL could not be initialized: '' @ sdl_error env @ endl)], Exit (- 1))"
  unfolding main_def using assms by (simp only: if_True simp_thms)

lemma startup_trace:
  "SDL_RenderClear \<notin> set (startup_calls @ [Cerr msg])"
  "cerr_lines (startup_calls @ [Cerr msg]) = [msg]"
  by (simp_all add: startup_calls_def)

lemma planets_loop_calls:
  "planets_loop ps = Some (cs, ps') \<Longrightarrow> SDL_DestroyWindow \<notin> set cs"
  by (induction ps arbitrary: cs ps') (auto split: option.splits simp: render_def)

lemma frame_calls: "frame ps = Some (cs, ps') \<Longrightarrow> SDL_DestroyWindow \<notin> set cs"
  by (auto simp: frame_def split: option.splits dest: planets_loop_calls)

lemma main_loop_calls: "SDL_DestroyWindow \<notin> set (fst (main_loop ps ess))"
proof (induction ess arbitrary: ps)
  case Nil
  show ?case by simp
next
  case (Cons es ess)
  show ?case
  proof (cases "frame ps")
    case None
    then show ?thesis by simp
  next
    case (Some f)
    obtain cs ps' where f: "f = (cs, ps')" by (cases f)
    have c: "SDL_DestroyWindow \<notin> set cs"
      using Some f by (intro frame_calls [of ps cs ps']) simp
    show ?thesis
      using c Cons.IH [of ps'] by (simp add: Some f split_beta)
  qed
qed

lemma window_left_open_while_running:
  assumes "sdl_init_ok env" "\<forall>a. texture_created env a"
    and "\<not> (\<exists>es \<in> set (event_batches env). \<exists>e \<in> set es. quit_event e)"
  shows "snd (main env) = Still_running \<and> window_left_open (main env)"
proof -
  obtain tr ps st where m: "main_loop planets (event_batches env) = (tr, ps, st)"
    by (cases "main_loop planets (event_batches env)") blast
  have "snd (snd (main_loop planets (event_batches env))) = Running"
    using assms(3) by (simp add: main_loop_status planets_small)
  then have st: "st = Running" by (simp add: m)
  have n: "SDL_DestroyWindow \<notin> set tr"
    using main_loop_calls [of planets "event_batches env"] by (simp add: m)
  have "main env = (startup_calls @ [SDL_SetRenderDrawColor] @ tr, Still_running)"
    using assms(1,2) by (simp add: main_def m st)
  then show ?thesis using n by (simp add: startup_calls_def)
qed

text \<open>
  Claim C5. When the texture of one of the ten images is not created, \<open>main\<close>
  writes one diagnostic line to \<^verbatim>\<open>std::cerr\<close> and returns \<open>-1\<close>, a nonzero
  exit code, before the first frame: no frame is cleared or drawn, and with
  \<^verbatim>\<open>SDL_Init\<close> successful the trace is the start-up calls followed by the line
  \<open>Failed to create texture: ...\<close>. The process has ended, so no window is left
  open.
\<close>

theorem C5_asset_failure_exit:
  assumes "\<not> texture_created env a"
  shows "snd (main env) = Exit (- 1) \<and> snd (main env) \<noteq> Exit 0 \<and>
     (\<exists>line. cerr_lines (fst (main env)) = [line]) \<and>
     SDL_RenderClear \<notin> set (fst (main env)) \<and>
     \<not> window_left_open (main env) \<and>
     (sdl_init_ok env \<longrightarrow>
        main env = (startup_calls @ [Cerr (''Failed to create texture: '' @ sdl_error env @ endl)],
                    Exit (- 1)))"
proof (cases "sdl_init_ok env")
  case True
  have m: "main env
     = (startup_calls @ [Cerr (''Failed to create texture: '' @ sdl_error env @ endl)], Exit (- 1))"
    using True assms by (rule main_asset_failure)
  show ?thesis
    using True startup_trace [of "''Failed to create texture: '' @ sdl_error env @ endl"]
    by (simp add: m)
next
  case False
  have m: "main env
     = ([SDL_Init, Cerr (''SDL could not be initialized: '' @ sdl_error env @ endl)], Exit (- 1))"
    using False by (rule main_init_failure)
  show ?thesis
    using False by (simp add: m)
qed

theorem C5_asset_failure_exit_witness:
  "\<not> texture_created \<lparr> sdl_init_ok = True, texture_created = (\<lambda>a. a \<noteq> Earth),
                          sdl_error = ''Could not open ./images/earth.bmp'',
                          event_batches = [] \<rparr> Earth \<and>
   snd (main \<lparr> sdl_init_ok = True, texture_created = (\<lambda>a. a \<noteq> Earth),
               sdl_error = ''Could not open ./images/earth.bmp'',
               event_batches = [] \<rparr>) = Exit (- 1) \<and>
   \<not> window_left_open (main \<lparr> sdl_init_ok = True, texture_created = (\<lambda>a. a \<noteq> Earth),
               sdl_error = ''Could not open ./images/earth.bmp'',
               event_batches = [] \<rparr>)"
proof -
  let ?env = "\<lparr> sdl_init_ok = True, texture_created = (\<lambda>a. a \<noteq> Earth),
               sdl_error = ''Could not open ./images/earth.bmp'',
               event_batches = [] \<rparr>"
  have h: "\<not> texture_created ?env Earth"
    by (simp only: environment.simps) simp
  from C5_asset_failure_exit [OF h] h show ?thesis by blast
qed

subsection \<open>The centre of the sun\<close>

text \<open>
  Claim C10. The centre handed to every position update is the centre of the
  window: \<^verbatim>\<open>sunXCoordinate\<close> is \<^verbatim>\<open>SCREEN_WIDTH / 2 = 960\<close> and
  \<^verbatim>\<open>sunYCoordinate\<close> is \<^verbatim>\<open>SCREEN_HEIGHT / 2 = 540\<close>. Both are constants
  computed before the loop, and the loop over the bodies updates each of them
  against \<open>(960, 540)\<close>.
\<close>

theorem C10_sun_center_is_window_center:
  "sunXCoordinate = SCREEN_WIDTH sdiv 2 \<and> sunYCoordinate = SCREEN_HEIGHT sdiv 2 \<and>
   sunXCoordinate = 960 \<and> sunYCoordinate = 540 \<and>
   map_option snd (planets_loop ps) = those (map (updatePosition 960 540) ps)"
proof -
  have v: "sunXCoordinate = 960 \<and> sunYCoordinate = 540"
    by (simp add: sunXCoordinate_def sunYCoordinate_def sunRect_def SCREEN_WIDTH_def
        SCREEN_HEIGHT_def signed_divide_int_def)
  moreover have "SCREEN_WIDTH sdiv 2 = 960 \<and> SCREEN_HEIGHT sdiv 2 = 540"
    by (simp add: SCREEN_WIDTH_def SCREEN_HEIGHT_def signed_divide_int_def)
  moreover have "map_option snd (planets_loop ps) = those (map (updatePosition 960 540) ps)"
    using planets_loop_those [of ps] v by simp
  ultimately show ?thesis by simp
qed

end
